theory Spec2Isabelle
  imports Complex_Main "HOL-Library.Multiset"
begin

section \<open>Values shared by all components\<close>

text \<open>
  How a call can fail. \<open>runtime_error\<close> is a \<open>std::runtime_error\<close> thrown by the
  repository's own code, with its \<open>what()\<close> text; \<open>foreign_error\<close> is any other
  \<open>std::exception\<close>, thrown by a library (OpenCV, libtorch, the JSON parser) or by a part
  of the repository that is not among the sources. \<open>undefined_behaviour\<close> is not an
  exception: it marks an execution the C++ standard leaves undefined (an integer division
  by zero, a \<open>std::vector\<close> subscript that is out of range); no \<open>catch\<close> sees it.
\<close>

datatype failure = runtime_error string | foreign_error string | undefined_behaviour

text \<open>
  A \<open>torch::Tensor\<close> of floats, by its elements in row-major order. Two tensors of
  equal shape have equally many elements; the shape itself is not modelled.
\<close>

type_synonym tensor = "real list"

text \<open>A C++ \<open>float\<close> read out of a tensor: a finite number, an infinity or NaN.\<close>

datatype float32 = Finite real | PosInf | NegInf | NaN

fun isfinite :: "float32 \<Rightarrow> bool" where
  "isfinite (Finite x) = True"
| "isfinite PosInf = False"
| "isfinite NegInf = False"
| "isfinite NaN = False"

text \<open>The conversion of an \<open>int\<close> to the 64-bit \<open>size_t\<close>.\<close>

definition to_size_t :: "int \<Rightarrow> nat" where
  "to_size_t x = nat (x mod 2 ^ 64)"

section \<open>\<open>input_data.cpp\<close>: cameras and input data\<close>

text \<open>
  The fields of \<open>Camera\<close> that the modelled code reads or writes. The struct itself is
  declared in \<open>input_data.hpp\<close>, which is not among the sources: \<open>filePath\<close>, \<open>image\<close>
  (here \<open>imageTensor\<close>, since \<open>image\<close> is a constant of HOL) and \<open>imagePyramids\<close> are
  used by \<open>input_data.cpp\<close>, \<open>idx\<close> by \<open>main\<close>.
\<close>

record Camera =
  filePath :: string
  idx :: nat
  imageTensor :: tensor
  imagePyramids :: "int \<rightharpoonup> tensor"

text \<open>
  \<open>Camera::getImage(int downscaleFactor)\<close>. The rescaling itself
  (\<open>tensorToImage\<close>, \<open>cv::resize\<close> to \<open>cols / downscaleFactor\<close> by
  \<open>rows / downscaleFactor\<close>, \<open>imageToTensor\<close>) is library code and a parameter; it can
  throw (OpenCV refuses an empty target size). The function returns the tensor and the
  camera, whose pyramid cache it may have extended.
\<close>

definition getImage ::
  "(tensor \<Rightarrow> int \<Rightarrow> failure + tensor) \<Rightarrow> Camera \<Rightarrow> int \<Rightarrow> failure + (tensor \<times> Camera)" where
  "getImage resize cam downscaleFactor =
     (if downscaleFactor \<le> 1 then Inr (imageTensor cam, cam)
      else (case imagePyramids cam downscaleFactor of
              Some t \<Rightarrow> Inr (t, cam)
            | None \<Rightarrow>
                (case resize (imageTensor cam) downscaleFactor of
                   Inl e \<Rightarrow> Inl e
                 | Inr t \<Rightarrow>
                     Inr (t, cam\<lparr>imagePyramids := (imagePyramids cam)(downscaleFactor \<mapsto> t)\<rparr>))))"

text \<open>
  A sequence of \<open>getImage\<close> calls on one camera, as the training loop makes them; it
  stops at the first call that throws.
\<close>

fun getImages ::
  "(tensor \<Rightarrow> int \<Rightarrow> failure + tensor) \<Rightarrow> Camera \<Rightarrow> int list \<Rightarrow> failure + Camera" where
  "getImages resize cam [] = Inr cam"
| "getImages resize cam (d # ds) =
     (case getImage resize cam d of
        Inl e \<Rightarrow> Inl e
      | Inr (t, cam') \<Rightarrow> getImages resize cam' ds)"

text \<open>
  \<open>fs::path(p).filename().string()\<close> for a POSIX path: what follows the last \<open>/\<close>.
\<close>

definition filename :: "string \<Rightarrow> string" where
  "filename p = rev (takeWhile (\<lambda>c. c \<noteq> CHR ''/'') (rev p))"

text \<open>
  \<open>root / name\<close> on \<open>fs::path\<close> (POSIX): an absolute right operand replaces the left
  one; otherwise a separator is put between the two unless the left operand is empty or
  already ends with one.
\<close>

definition pathAppend :: "string \<Rightarrow> string \<Rightarrow> string" where
  "pathAppend p q =
     (if q \<noteq> [] \<and> hd q = CHR ''/'' then q
      else if p = [] \<or> last p = CHR ''/'' then p @ q
      else p @ ''/'' @ q)"

text \<open>
  \<open>InputData\<close>: the cameras, and of \<open>points\<close> what the modelled code reads: the number
  of rows of \<open>points.xyz\<close> and whether \<open>points.mesh\<close> is set (non-null).
\<close>

record InputData =
  cameras :: "Camera list"
  points_xyz_size0 :: nat
  points_mesh :: bool

text \<open>
  The search loop of \<open>getCameras\<close>: the index of the first camera, from position \<open>i\<close>
  on, whose file name is \<open>valImage\<close>. \<open>None\<close> stands for \<open>valIdx\<close> still being
  \<open>(size_t) -1\<close> when the loop ends.
\<close>

fun findValIdx :: "string \<Rightarrow> Camera list \<Rightarrow> nat \<Rightarrow> nat option" where
  "findValIdx valImage [] i = None"
| "findValIdx valImage (c # cs) i =
     (if filename (filePath c) = valImage then Some i else findValIdx valImage cs (Suc i))"

text \<open>
  The second loop of \<open>getCameras\<close>, from position \<open>i\<close> on: every camera but the one at
  \<open>valIdx\<close> is pushed to \<open>cams\<close>, and \<open>valCam\<close> is made to point at that one. The
  pointer \<open>valCam\<close> into \<open>InputData::cameras\<close> is modelled by the index it points at,
  \<open>None\<close> being \<open>nullptr\<close>.
\<close>

fun withhold :: "nat \<Rightarrow> Camera list \<Rightarrow> nat \<Rightarrow> Camera list \<times> nat option" where
  "withhold valIdx [] i = ([], None)"
| "withhold valIdx (c # cs) i =
     (let (cams, valCam) = withhold valIdx cs (Suc i)
      in if i \<noteq> valIdx then (c # cams, valCam) else (cams, Some i))"

text \<open>
  \<open>InputData::getCameras(validate, valImage)\<close>. \<open>rand42\<close> is the value of
  \<open>std::rand()\<close> right after \<open>std::srand(42)\<close>. With no camera at all,
  \<open>std::rand() % cameras.size()\<close> divides by zero.
\<close>

definition getCameras ::
  "nat \<Rightarrow> InputData \<Rightarrow> bool \<Rightarrow> string \<Rightarrow> failure + (Camera list \<times> nat option)" where
  "getCameras rand42 inputData validate valImage =
     (if \<not> validate then Inr (cameras inputData, None)
      else if valImage = ''random'' then
        (if length (cameras inputData) = 0 then Inl undefined_behaviour
         else Inr (withhold (rand42 mod length (cameras inputData)) (cameras inputData) 0))
      else
        (case findValIdx valImage (cameras inputData) 0 of
           None \<Rightarrow> Inl (runtime_error (valImage @ '' not in the list of cameras''))
         | Some valIdx \<Rightarrow> Inr (withhold valIdx (cameras inputData) 0)))"

text \<open>
  What \<open>inputDataFromX\<close> and \<open>main\<close> call on the file system and to read a project
  from disk. All of it rests on libraries or on files that are not among the sources, so
  each is a parameter, with the failure it can throw: the file system (\<open>fs::exists\<close> and
  \<open>fs::create_directories\<close>, which throw a \<open>filesystem_error\<close> when the operating
  system reports an error); \<open>readTransforms\<close>, which parses the manifest with the JSON
  library and throws on a missing key;
  \<open>readPointSet\<close>; \<open>loadMeshPoints\<close>, which stands for \<open>loadMeshConstraint\<close> followed by
  \<open>pointSetFromMeshConstraint\<close> (they read the mesh file through tinyply);
  \<open>autoScaleAndCenterPoses\<close>; the colmap reader; and \<open>imreadTensor\<close>, the tensor that
  \<open>Camera::loadImage\<close> leaves in \<open>image\<close> after reading the file with OpenCV. The point
  readers return the number of points they read; \<open>autoScaleAndCenterPoses\<close> returns
  tensors that are not looked at here, so only whether it throws is kept. Of a frame and
  of the manifest, the fields that the modelled code reads are kept.
\<close>

record Frame =
  file_path :: string

record Transforms =
  cameraModel :: string
  frames :: "Frame list"
  plyFilePath :: string

record Loaders =
  fs_exists :: "string \<Rightarrow> failure + bool"
  fs_create_directories :: "string \<Rightarrow> failure option"
  readTransforms :: "string \<Rightarrow> failure + Transforms"
  readPointSet :: "string \<Rightarrow> failure + nat"
  loadMeshPoints :: "string \<Rightarrow> failure + nat"
  autoScaleAndCenterPoses :: "Transforms \<Rightarrow> failure option"
  inputDataFromColmap :: "string \<Rightarrow> failure + InputData"
  imreadTensor :: "real \<Rightarrow> Camera \<Rightarrow> failure + tensor"

section \<open>\<open>nerfstudio.cpp\<close>: loading a nerfstudio project\<close>

text \<open>
  \<open>ns::inputDataFromNerfStudio(projectRoot, meshInput)\<close>. A camera is built per frame,
  with no image yet; \<open>main\<close> numbers the cameras and loads their images afterwards.
\<close>

definition inputDataFromNerfStudio :: "Loaders \<Rightarrow> string \<Rightarrow> string \<Rightarrow> failure + InputData" where
  "inputDataFromNerfStudio L projectRoot meshInput =
     (let transformsPath = pathAppend projectRoot ''transforms.json'' in
      case fs_exists L transformsPath of
        Inl e \<Rightarrow> Inl e
      | Inr ex \<Rightarrow>
          if \<not> ex
          then Inl (runtime_error (transformsPath @ '' does not exist''))
          else
            let hasMeshInput = (length meshInput > 0) in
            case readTransforms L transformsPath of
              Inl e \<Rightarrow> Inl e
            | Inr t \<Rightarrow>
                if plyFilePath t = [] \<and> \<not> hasMeshInput
                then Inl (runtime_error ''ply_file_path is empty (and no mesh input)'')
                else
                  (case (if \<not> hasMeshInput
                         then readPointSet L (pathAppend projectRoot (plyFilePath t))
                         else loadMeshPoints L meshInput) of
                     Inl e \<Rightarrow> Inl e
                   | Inr n \<Rightarrow>
                       (case autoScaleAndCenterPoses L t of
                          Some e \<Rightarrow> Inl e
                        | None \<Rightarrow>
                            Inr \<lparr>cameras =
                                   map (\<lambda>f. \<lparr>filePath = pathAppend projectRoot (file_path f),
                                             idx = 0, imageTensor = [],
                                             imagePyramids = Map.empty\<rparr>) (frames t),
                                 points_xyz_size0 = n,
                                 points_mesh = hasMeshInput\<rparr>)))"

text \<open>
  \<open>inputDataFromX(projectRoot, meshInput)\<close>, of \<open>input_data.cpp\<close>. The second test is a
  disjunction (\<open>||\<close>): it asks for \<open>sparse\<close> and, only when there is none, for
  \<open>cameras.bin\<close>.
\<close>

definition inputDataFromX :: "Loaders \<Rightarrow> string \<Rightarrow> string \<Rightarrow> failure + InputData" where
  "inputDataFromX L projectRoot meshInput =
     (case fs_exists L (pathAppend projectRoot ''transforms.json'') of
        Inl e \<Rightarrow> Inl e
      | Inr isNerfStudio \<Rightarrow>
          if isNerfStudio then inputDataFromNerfStudio L projectRoot meshInput
          else
            (case fs_exists L (pathAppend projectRoot ''sparse'') of
               Inl e \<Rightarrow> Inl e
             | Inr hasSparse \<Rightarrow>
                 if hasSparse then inputDataFromColmap L projectRoot
                 else
                   (case fs_exists L (pathAppend projectRoot ''cameras.bin'') of
                      Inl e \<Rightarrow> Inl e
                    | Inr hasCamerasBin \<Rightarrow>
                        if hasCamerasBin then inputDataFromColmap L projectRoot
                        else Inl (runtime_error
                               ''Invalid project folder (must be either a colmap or nerfstudio project folder)''))))"

section \<open>\<open>model.hpp\<close>: the model and its construction\<close>

text \<open>The \<open>SSIM\<close> member, constructed as \<open>ssim(11, 3)\<close>: window size and channel count.\<close>

record SSIM =
  window_size :: nat
  channel :: nat

text \<open>
  The locals \<open>lr_means\<close>, \<open>lr_quats\<close>, \<open>lr_opacities\<close>, \<open>lr_scales\<close>, \<open>lr_fdc\<close>,
  \<open>lr_frest\<close> and \<open>base_opacities\<close> of the constructor, as functions of
  \<open>hasMeshConstraint\<close>. The literals are decimal fractions; they are kept as the reals
  they denote, not as the nearest doubles.
\<close>

definition lr_means :: "bool \<Rightarrow> real" where
  "lr_means hasMeshConstraint = (if hasMeshConstraint then 0.00000000001 else 0.00016)"

definition lr_quats :: "bool \<Rightarrow> real" where
  "lr_quats hasMeshConstraint = (if hasMeshConstraint then 0.00000000001 else 0.001)"

definition lr_opacities :: "bool \<Rightarrow> real" where
  "lr_opacities hasMeshConstraint = (if hasMeshConstraint then 0.00000000001 else 0.05)"

definition lr_scales :: "bool \<Rightarrow> real" where
  "lr_scales hasMeshConstraint = (if hasMeshConstraint then 0.0000000001 else 0.005)"

definition lr_fdc :: "bool \<Rightarrow> real" where
  "lr_fdc hasMeshConstraint = (if hasMeshConstraint then 0.0025 else 0.0025)"

definition lr_frest :: "bool \<Rightarrow> real" where
  "lr_frest hasMeshConstraint = (if hasMeshConstraint then 0.000125 else 0.000125)"

definition base_opacities :: "bool \<Rightarrow> real" where
  "base_opacities hasMeshConstraint = (if hasMeshConstraint then 0.6 else 0.1)"

text \<open>
  \<open>struct Model\<close>: its configuration members, and for each of the six Adam optimizers
  the learning rate it is constructed with (\<open>torch::optim::AdamOptions(lr)\<close>). The
  tensors and the optimizer state are kept apart, in the training state below.
\<close>

record Model =
  numCameras :: nat
  numDownscales :: int
  resolutionSchedule :: int
  shDegree :: int
  shDegreeInterval :: int
  refineEvery :: int
  warmupLength :: int
  resetAlphaEvery :: int
  stopSplitAt :: int
  densifyGradThresh :: real
  densifySizeThresh :: real
  stopScreenSizeAt :: int
  splitScreenSize :: real
  maxSteps :: int
  ssim :: SSIM
  hasMeshConstraint :: bool
  meansOpt_lr :: real
  scalesOpt_lr :: real
  quatsOpt_lr :: real
  featuresDcOpt_lr :: real
  featuresRestOpt_lr :: real
  opacitiesOpt_lr :: real
  initial_opacity :: real
  meansOptScheduler_lrFinal :: real

text \<open>
  The constructor \<open>Model::Model\<close>. \<open>initial_opacity\<close> is the value whose logit fills
  \<open>opacities\<close>; \<open>meansOptScheduler_lrFinal\<close> is the final rate that the scheduler of the
  position optimizer is constructed with (what the scheduler does with it is in
  \<open>optim_scheduler.hpp\<close>, which is not among the sources).
\<close>

definition Model_ctor ::
  "InputData \<Rightarrow> nat \<Rightarrow> int \<Rightarrow> int \<Rightarrow> int \<Rightarrow> int \<Rightarrow> int \<Rightarrow> int \<Rightarrow> int \<Rightarrow> int \<Rightarrow> real \<Rightarrow> real
     \<Rightarrow> int \<Rightarrow> real \<Rightarrow> int \<Rightarrow> Model" where
  "Model_ctor inputData numCameras' numDownscales' resolutionSchedule' shDegree'
       shDegreeInterval' refineEvery' warmupLength' resetAlphaEvery' stopSplitAt'
       densifyGradThresh' densifySizeThresh' stopScreenSizeAt' splitScreenSize' maxSteps' =
     (let hasMesh = points_mesh inputData in
      \<lparr>numCameras = numCameras',
       numDownscales = numDownscales',
       resolutionSchedule = resolutionSchedule',
       shDegree = shDegree',
       shDegreeInterval = shDegreeInterval',
       refineEvery = refineEvery',
       warmupLength = warmupLength',
       resetAlphaEvery = resetAlphaEvery',
       stopSplitAt = stopSplitAt',
       densifyGradThresh = densifyGradThresh',
       densifySizeThresh = densifySizeThresh',
       stopScreenSizeAt = stopScreenSizeAt',
       splitScreenSize = splitScreenSize',
       maxSteps = maxSteps',
       ssim = \<lparr>window_size = 11, channel = 3\<rparr>,
       hasMeshConstraint = hasMesh,
       meansOpt_lr = lr_means hasMesh,
       scalesOpt_lr = lr_scales hasMesh,
       quatsOpt_lr = lr_quats hasMesh,
       featuresDcOpt_lr = lr_fdc hasMesh,
       featuresRestOpt_lr = lr_frest hasMesh,
       opacitiesOpt_lr = lr_opacities hasMesh,
       initial_opacity = base_opacities hasMesh,
       meansOptScheduler_lrFinal = 0.0000016\<rparr>)"

section \<open>ScheduleController: the image downscale factor\<close>

text \<open>
  Modelled from the spec: \<open>Model::getDownscaleFactor\<close> is declared in \<open>model.hpp\<close>
  (\<open>int getDownscaleFactor(int step)\<close>) but its body, in \<open>model.cpp\<close>, is not among the
  sources. The spec (section 4.3) gives it as a pure function of the step number: start at
  \<open>2^numDownscales\<close>, halve every \<open>resolutionSchedule\<close> steps, floor at 1. The number
  of halvings that have happened by step \<open>t\<close> is \<open>t div resolutionSchedule\<close>; the
  exponent that is left is clamped at 0.
\<close>

definition getDownscaleFactor :: "Model \<Rightarrow> int \<Rightarrow> int" where
  "getDownscaleFactor m step =
     2 ^ nat (max (numDownscales m - step div resolutionSchedule m) 0)"

section \<open>LossEngine\<close>

text \<open>
  Modelled from the spec: \<open>l1\<close> and \<open>Model::mainLoss\<close> are declared in \<open>model.hpp\<close>;
  their bodies (\<open>model.cpp\<close>) and the class \<open>SSIM\<close> (\<open>ssim.hpp\<close>) are not among the
  sources. The spec (section 4.6) gives the loss as
  \<open>(1 - ssimWeight) * meanAbsoluteError + ssimWeight * (1 - structuralSimilarity)\<close>, over
  the full image. The mean absolute error is the mean, over all elements, of the absolute
  difference; the structural similarity is computed by the model's \<open>ssim\<close> member, and
  what it computes from its window size and channel count is a parameter. The arithmetic
  is that of the reals, which is what the spec's formula denotes.
\<close>

definition l1 :: "tensor \<Rightarrow> tensor \<Rightarrow> real" where
  "l1 rendered gt = (\<Sum>(r, g) \<leftarrow> zip rendered gt. \<bar>g - r\<bar>) / real (length rendered)"

definition mainLoss ::
  "(SSIM \<Rightarrow> tensor \<Rightarrow> tensor \<Rightarrow> real) \<Rightarrow> Model \<Rightarrow> tensor \<Rightarrow> tensor \<Rightarrow> real \<Rightarrow> real" where
  "mainLoss ssim_eval m rgb gt ssimWeight =
     (1 - ssimWeight) * l1 rgb gt + ssimWeight * (1 - ssim_eval (ssim m) rgb gt)"

section \<open>The camera iterator\<close>

text \<open>
  Modelled from the spec: \<open>InfiniteRandomIterator\<close> is used by \<open>main\<close> but defined in
  \<open>opensplat.hpp\<close>, which is not among the sources. The spec (sections 4.7 and 9)
  describes a stateful generator over a vector of indices: it hands the indices out in
  their current order and reshuffles the vector each time it has handed out the last
  one, so every epoch runs through a fresh random permutation. The shuffle is a
  parameter (the spec leaves its policy open): given the state of the random engine and
  a vector it returns the shuffled vector and the next engine state.
\<close>

record InfiniteRandomIterator =
  it_v :: "nat list"
  it_i :: nat
  it_engine :: nat

definition shuffleV ::
  "(nat \<Rightarrow> nat list \<Rightarrow> nat list \<times> nat) \<Rightarrow> InfiniteRandomIterator \<Rightarrow> InfiniteRandomIterator" where
  "shuffleV sh it =
     (let (v', g') = sh (it_engine it) (it_v it) in \<lparr>it_v = v', it_i = 0, it_engine = g'\<rparr>)"

definition newIterator ::
  "(nat \<Rightarrow> nat list \<Rightarrow> nat list \<times> nat) \<Rightarrow> nat \<Rightarrow> nat list \<Rightarrow> InfiniteRandomIterator" where
  "newIterator sh seed v = shuffleV sh \<lparr>it_v = v, it_i = 0, it_engine = seed\<rparr>"

text \<open>
  \<open>next()\<close>: the element at the current position; the position advances, and the vector
  is reshuffled once the position has reached its end. On an empty vector the subscript
  is out of range.
\<close>

definition iter_next ::
  "(nat \<Rightarrow> nat list \<Rightarrow> nat list \<times> nat) \<Rightarrow> InfiniteRandomIterator
     \<Rightarrow> failure + (nat \<times> InfiniteRandomIterator)" where
  "iter_next sh it =
     (if length (it_v it) \<le> it_i it then Inl undefined_behaviour
      else
        let ret = it_v it ! it_i it;
            it' = it\<lparr>it_i := it_i it + 1\<rparr>
        in Inr (ret, if length (it_v it') \<le> it_i it' then shuffleV sh it' else it'))"

text \<open>The first \<open>n\<close> selections of an iterator.\<close>

fun draws ::
  "(nat \<Rightarrow> nat list \<Rightarrow> nat list \<times> nat) \<Rightarrow> InfiniteRandomIterator \<Rightarrow> nat \<Rightarrow> nat list" where
  "draws sh it 0 = []"
| "draws sh it (Suc n) =
     (case iter_next sh it of
        Inl e \<Rightarrow> []
      | Inr (x, it') \<Rightarrow> x # draws sh it' n)"

text \<open>
  The iterator of \<open>main\<close>: \<open>camIndices\<close> is filled by \<open>std::iota\<close> with
  \<open>0, ..., cams.size() - 1\<close>.
\<close>

definition camsIter0 ::
  "(nat \<Rightarrow> nat list \<Rightarrow> nat list \<times> nat) \<Rightarrow> nat \<Rightarrow> nat \<Rightarrow> InfiniteRandomIterator" where
  "camsIter0 sh seed numCams = newIterator sh seed [0..<numCams]"

text \<open>The iterator after its first \<open>n\<close> selections.\<close>

fun advance ::
  "(nat \<Rightarrow> nat list \<Rightarrow> nat list \<times> nat) \<Rightarrow> InfiniteRandomIterator \<Rightarrow> nat \<Rightarrow> InfiniteRandomIterator" where
  "advance sh it 0 = it"
| "advance sh it (Suc n) =
     (case iter_next sh it of
        Inl e \<Rightarrow> it
      | Inr (x, it') \<Rightarrow> advance sh it' n)"

text \<open>
  The state at the start of an epoch, for \<open>n\<close> cameras: the position is 0 and the
  vector holds each of \<open>0, ..., n - 1\<close> once.
\<close>

definition epochStart :: "nat \<Rightarrow> InfiniteRandomIterator \<Rightarrow> bool" where
  "epochStart n it = (it_i it = 0 \<and> mset (it_v it) = mset [0..<n])"

section \<open>DensityController: when refinement runs\<close>

text \<open>
  Modelled from the spec: \<open>Model::afterTrain\<close> is declared in \<open>model.hpp\<close>, its body
  (\<open>model.cpp\<close>) is not among the sources. By the spec (section 4.5) the density
  controller, the only component that clones, splits or prunes primitives, runs only when
  \<open>warmupLength < step \<le> stopSplitAt\<close> and \<open>step mod refineEvery = 0\<close>.
\<close>

definition refineGate :: "Model \<Rightarrow> int \<Rightarrow> bool" where
  "refineGate m step =
     (warmupLength m < step \<and> step \<le> stopSplitAt m \<and> step mod refineEvery m = 0)"


section \<open>\<open>opensplat.cpp\<close>: the command line and the training run\<close>

text \<open>
  The parsed command line (\<open>result\<close>, once \<open>options.parse\<close> has returned), one field
  per option that \<open>main\<close> reads. \<open>opt_help\<close>, \<open>opt_input_given\<close>, \<open>opt_fixed\<close>,
  \<open>opt_val\<close> and \<open>opt_val_render_given\<close> say whether the option was given
  (\<open>result.count(...) > 0\<close>). The device option is left out.
\<close>

record CmdLine =
  opt_help :: bool
  opt_input_given :: bool
  opt_input :: string
  opt_output :: string
  opt_save_every :: int
  opt_val :: bool
  opt_val_image :: string
  opt_val_render_given :: bool
  opt_val_render :: string
  opt_val_every :: int
  opt_mesh_file :: string
  opt_fixed :: bool
  opt_num_iters :: int
  opt_downscale_factor :: real
  opt_num_downscales :: int
  opt_resolution_schedule :: int
  opt_sh_degree :: int
  opt_sh_degree_interval :: int
  opt_ssim_weight :: real
  opt_refine_every :: int
  opt_warmup_length :: int
  opt_reset_alpha_every :: int
  opt_stop_split_at :: int
  opt_densify_grad_thresh :: real
  opt_densify_size_thresh :: real
  opt_stop_screen_size_at :: int
  opt_split_screen_size :: real

text \<open>
  The constants \<open>main\<close> derives from it. \<open>2 * numIters\<close> is computed in \<open>int\<close>; the
  model has the exact product, which is the code's value as long as it fits in 32 bits.
\<close>

definition main_validate :: "CmdLine \<Rightarrow> bool" where
  "main_validate c = (opt_val c \<or> opt_val_render_given c)"

definition main_downScaleFactor :: "CmdLine \<Rightarrow> real" where
  "main_downScaleFactor c = max (opt_downscale_factor c) 1"

definition main_refineEvery :: "CmdLine \<Rightarrow> int" where
  "main_refineEvery c = (if opt_fixed c then 2 * opt_num_iters c else opt_refine_every c)"

definition main_stopSplitAt :: "CmdLine \<Rightarrow> int" where
  "main_stopSplitAt c = (if opt_fixed c then 1 else opt_stop_split_at c)"

definition main_model :: "CmdLine \<Rightarrow> InputData \<Rightarrow> nat \<Rightarrow> Model" where
  "main_model c inputData numCams =
     Model_ctor inputData numCams (opt_num_downscales c) (opt_resolution_schedule c)
       (opt_sh_degree c) (opt_sh_degree_interval c) (main_refineEvery c) (opt_warmup_length c)
       (opt_reset_alpha_every c) (main_stopSplitAt c) (opt_densify_grad_thresh c)
       (opt_densify_size_thresh c) (opt_stop_screen_size_at c) (opt_split_screen_size c)
       (opt_num_iters c)"

text \<open>
  What the training run calls and the sources do not contain: the C library's random
  numbers, the rendering pipeline, the loss, automatic differentiation, the optimizers,
  the density controller and the writers of files. \<open>'p\<close> is the numeric content of the
  model (the six parameter tensors, the optimizer state and the statistics), which this
  theory never looks into. Each operation is a function of that content and may throw.
  \<open>mainLoss_item\<close> is the \<open>float\<close> read from the tensor that \<open>Model::mainLoss\<close>
  returns; \<open>densify\<close> is the cloning, splitting and pruning of the density controller,
  the one operation that can change the number of primitives; \<open>saveCheckpoint\<close> is
  \<open>savePlySplat\<close> on the file name \<open>main\<close> derives from the output name and the step.
\<close>

record 'p Pipeline =
  std_rand42 :: nat
  std_shuffle :: "nat \<Rightarrow> nat list \<Rightarrow> nat list \<times> nat"
  engine_seed :: nat
  cv_resize :: "tensor \<Rightarrow> int \<Rightarrow> failure + tensor"
  initTensors :: "InputData \<Rightarrow> 'p"
  optimizersZeroGrad :: "'p \<Rightarrow> 'p"
  forward :: "'p \<Rightarrow> Camera \<Rightarrow> nat \<Rightarrow> failure + (tensor \<times> 'p)"
  mainLoss_item :: "'p \<Rightarrow> tensor \<Rightarrow> tensor \<Rightarrow> real \<Rightarrow> failure + float32"
  backward :: "'p \<Rightarrow> failure + 'p"
  optimizersStep :: "'p \<Rightarrow> failure + 'p"
  schedulersStep :: "'p \<Rightarrow> nat \<Rightarrow> failure + 'p"
  updateStats :: "'p \<Rightarrow> 'p"
  densify :: "Model \<Rightarrow> nat \<Rightarrow> nat \<times> 'p \<Rightarrow> failure + (nat \<times> 'p)"
  savePlySplat :: "'p \<Rightarrow> string \<Rightarrow> failure option"
  saveCheckpoint :: "'p \<Rightarrow> string \<Rightarrow> nat \<Rightarrow> failure option"
  writeValRender :: "string \<Rightarrow> nat \<Rightarrow> nat \<Rightarrow> tensor \<Rightarrow> tensor \<Rightarrow> failure option"

text \<open>
  Modelled from the spec: \<open>Model::afterTrain(step)\<close>, on the number of primitives and the
  numeric content. The statistics are updated at every step; the density controller runs
  under \<open>refineGate\<close> only.
\<close>

definition afterTrain :: "'p Pipeline \<Rightarrow> Model \<Rightarrow> nat \<Rightarrow> nat \<times> 'p \<Rightarrow> failure + (nat \<times> 'p)" where
  "afterTrain P m step np =
     (let np' = (fst np, updateStats P (snd np))
      in if refineGate m (int step) then densify P m step np' else Inr np')"

text \<open>
  What a run records: \<open>TrainStep step idx loss\<close> is the
  \<open>lossesByCamera[cam.idx].push_back(steploss)\<close> of a training step; \<open>Validate path loss\<close>
  is the validation line printed at the end, with the withheld camera's file path.
\<close>

datatype event = TrainStep nat nat float32 | Validate string float32

text \<open>
  The state the training loop works on: \<open>cams\<close> (with their image caches), \<open>camsIter\<close>,
  the numeric content of \<open>model\<close> and its number of primitives (the common leading
  dimension \<open>N\<close> of the six arrays), \<open>lossesByCamera\<close>, and the events so far.
\<close>

record 'p TrainState =
  ts_cams :: "Camera list"
  ts_camsIter :: InfiniteRandomIterator
  ts_tensors :: 'p
  ts_N :: nat
  ts_lossesByCamera :: "float32 list list"
  ts_events :: "event list"

text \<open>
  The loop over \<open>cams\<close> that dumps validation renders (\<open>--val-render\<close>): it runs
  \<open>forward\<close> and \<open>getImage\<close> on every camera and writes two images per camera.
\<close>

fun dumpCams ::
  "'p Pipeline \<Rightarrow> Model \<Rightarrow> string \<Rightarrow> nat \<Rightarrow> nat \<Rightarrow> Camera list \<Rightarrow> 'p \<Rightarrow> failure + (Camera list \<times> 'p)" where
  "dumpCams P m valRender step i [] p = Inr ([], p)"
| "dumpCams P m valRender step i (cam # rest) p =
     (case forward P p cam step of
        Inl e \<Rightarrow> Inl e
      | Inr (rgb, p1) \<Rightarrow>
          (case getImage (cv_resize P) cam (getDownscaleFactor m (int step)) of
             Inl e \<Rightarrow> Inl e
           | Inr (gt, cam') \<Rightarrow>
               (case writeValRender P valRender step i rgb gt of
                  Some e \<Rightarrow> Inl e
                | None \<Rightarrow>
                    (case dumpCams P m valRender step (Suc i) rest p1 of
                       Inl e \<Rightarrow> Inl e
                     | Inr (rest', p2) \<Rightarrow> Inr (cam' # rest', p2)))))"

text \<open>
  One iteration of the \<open>for\<close> loop of \<open>main\<close> (the body for one value of \<open>step\<close>),
  in three parts. The first part, up to the checkpoint, selects the camera, dumps the
  validation renders when they are due, renders the camera and fetches its ground truth.
  \<open>step % valEvery\<close> is computed in \<open>size_t\<close>; the subscript \<open>cams[camsIter.next()]\<close>
  can be out of range. What the part hands on: \<open>cams\<close> with the image caches as they are
  now, the iterator, the selected camera, the rendered image, the ground truth and the
  numeric content.
\<close>

record 'p Rendered =
  r_cams :: "Camera list"
  r_camsIter :: InfiniteRandomIterator
  r_cam :: Camera
  r_rgb :: tensor
  r_gt :: tensor
  r_tensors :: 'p

definition renderPhase ::
  "'p Pipeline \<Rightarrow> CmdLine \<Rightarrow> Model \<Rightarrow> nat \<Rightarrow> 'p TrainState \<Rightarrow> failure + 'p Rendered" where
  "renderPhase P c m step s =
     (case iter_next (std_shuffle P) (ts_camsIter s) of
        Inl e \<Rightarrow> Inl e
      | Inr (ci, it') \<Rightarrow>
          if length (ts_cams s) \<le> ci then Inl undefined_behaviour
          else
            (case (if opt_val_render c \<noteq> []
                   then (if to_size_t (opt_val_every c) = 0 then Inl undefined_behaviour
                         else if step mod to_size_t (opt_val_every c) = 0
                         then dumpCams P m (opt_val_render c) step 0 (ts_cams s) (ts_tensors s)
                         else Inr (ts_cams s, ts_tensors s))
                   else Inr (ts_cams s, ts_tensors s)) of
               Inl e \<Rightarrow> Inl e
             | Inr (cams1, p1) \<Rightarrow>
                 (case forward P (optimizersZeroGrad P p1) (cams1 ! ci) step of
                    Inl e \<Rightarrow> Inl e
                  | Inr (rgb, p2) \<Rightarrow>
                      (case getImage (cv_resize P) (cams1 ! ci) (getDownscaleFactor m (int step)) of
                         Inl e \<Rightarrow> Inl e
                       | Inr (gt, cam) \<Rightarrow>
                           (case (if 0 < opt_save_every c \<and> step mod nat (opt_save_every c) = 0
                                  then saveCheckpoint P p2 (opt_output c) step else None) of
                              Some e \<Rightarrow> Inl e
                            | None \<Rightarrow>
                                Inr \<lparr>r_cams = cams1[ci := cam], r_camsIter = it', r_cam = cam,
                                     r_rgb = rgb, r_gt = gt, r_tensors = p2\<rparr>)))))"

text \<open>
  The last part, from \<open>mainLoss.backward()\<close> on, given the \<open>steploss\<close> that was read:
  the loss is appended to \<open>lossesByCamera[cam.idx]\<close> (a subscript that can be out of
  range), the optimizers and the scheduler step, and \<open>afterTrain\<close> runs.
\<close>

definition updatePhase ::
  "'p Pipeline \<Rightarrow> Model \<Rightarrow> nat \<Rightarrow> 'p TrainState \<Rightarrow> 'p Rendered \<Rightarrow> float32 \<Rightarrow> failure + 'p TrainState" where
  "updatePhase P m step s r steploss =
     (case backward P (r_tensors r) of
        Inl e \<Rightarrow> Inl e
      | Inr p3 \<Rightarrow>
          if length (ts_lossesByCamera s) \<le> idx (r_cam r) then Inl undefined_behaviour
          else
            (case optimizersStep P p3 of
               Inl e \<Rightarrow> Inl e
             | Inr p4 \<Rightarrow>
                 (case schedulersStep P p4 step of
                    Inl e \<Rightarrow> Inl e
                  | Inr p5 \<Rightarrow>
                      (case afterTrain P m step (ts_N s, p5) of
                         Inl e \<Rightarrow> Inl e
                       | Inr (n', p6) \<Rightarrow>
                           Inr \<lparr>ts_cams = r_cams r,
                                ts_camsIter = r_camsIter r,
                                ts_tensors = p6,
                                ts_N = n',
                                ts_lossesByCamera =
                                  (ts_lossesByCamera s)
                                    [idx (r_cam r) :=
                                       ts_lossesByCamera s ! idx (r_cam r) @ [steploss]],
                                ts_events =
                                  ts_events s @ [TrainStep step (idx (r_cam r)) steploss]\<rparr>))))"

text \<open>
  The whole iteration: between the two parts, \<open>model.mainLoss(rgb, gt, ssimWeight)\<close> is
  computed and its value read into \<open>steploss\<close>.
\<close>

definition trainStep ::
  "'p Pipeline \<Rightarrow> CmdLine \<Rightarrow> Model \<Rightarrow> nat \<Rightarrow> 'p TrainState \<Rightarrow> failure + 'p TrainState" where
  "trainStep P c m step s =
     (case renderPhase P c m step s of
        Inl e \<Rightarrow> Inl e
      | Inr r \<Rightarrow>
          (case mainLoss_item P (r_tensors r) (r_rgb r) (r_gt r) (opt_ssim_weight c) of
             Inl e \<Rightarrow> Inl e
           | Inr steploss \<Rightarrow> updatePhase P m step s r steploss))"

text \<open>
  The \<open>for\<close> loop over the given steps. It stops at the first iteration that fails and
  returns that failure with the state reached before it.
\<close>

fun trainLoop ::
  "'p Pipeline \<Rightarrow> CmdLine \<Rightarrow> Model \<Rightarrow> nat list \<Rightarrow> 'p TrainState \<Rightarrow> failure option \<times> 'p TrainState" where
  "trainLoop P c m [] s = (None, s)"
| "trainLoop P c m (step # steps) s =
     (case trainStep P c m step s of
        Inl e \<Rightarrow> (Some e, s)
      | Inr s' \<Rightarrow> trainLoop P c m steps s')"

text \<open>
  The values \<open>step\<close> takes in \<open>for (size_t step = 1; step <= numIters; step++)\<close>. The
  comparison converts \<open>numIters\<close> to \<open>size_t\<close>. (For \<open>numIters = -1\<close> the bound is the
  largest \<open>size_t\<close>, the loop of the program never ends, and this list is only the
  beginning of its steps.)
\<close>

definition main_steps :: "CmdLine \<Rightarrow> nat list" where
  "main_steps c = [1 ..< Suc (to_size_t (opt_num_iters c))]"

text \<open>
  How a run ends: \<open>main\<close> returns, or its handler prints \<open>e.what()\<close> and calls
  \<open>exit(1)\<close>, or an exception thrown outside the \<open>try\<close> block reaches
  \<open>std::terminate\<close>, or the execution was undefined.
\<close>

datatype ending = Returned | Exit1 string | Terminated | Undefined

fun handler :: "failure \<Rightarrow> ending" where
  "handler (runtime_error msg) = Exit1 msg"
| "handler (foreign_error msg) = Exit1 msg"
| "handler undefined_behaviour = Undefined"

text \<open>An exception that no handler catches.\<close>

fun uncaught :: "failure \<Rightarrow> ending" where
  "uncaught (runtime_error msg) = Terminated"
| "uncaught (foreign_error msg) = Terminated"
| "uncaught undefined_behaviour = Undefined"

text \<open>
  What \<open>main\<close> does with \<open>valRender\<close> before the \<open>try\<close> block:
  \<open>if (!valRender.empty() && !fs::exists(valRender)) fs::create_directories(valRender)\<close>.
  \<open>None\<close> is the statement completing; an exception of either call is not caught.
\<close>

definition makeValRenderDir :: "Loaders \<Rightarrow> CmdLine \<Rightarrow> failure option" where
  "makeValRenderDir L c =
     (if opt_val_render c = [] then None
      else
        (case fs_exists L (opt_val_render c) of
           Inl e \<Rightarrow> Some e
         | Inr ex \<Rightarrow> if ex then None else fs_create_directories L (opt_val_render c)))"

text \<open>The loop that numbers the cameras, and the loop that loads their images.\<close>

definition assignIdx :: "Camera list \<Rightarrow> Camera list" where
  "assignIdx cs = map (\<lambda>(i, cam). cam\<lparr>idx := i\<rparr>) (zip [0..<length cs] cs)"

fun loadImages :: "Loaders \<Rightarrow> real \<Rightarrow> Camera list \<Rightarrow> failure + Camera list" where
  "loadImages L f [] = Inr []"
| "loadImages L f (cam # cs) =
     (case imreadTensor L f cam of
        Inl e \<Rightarrow> Inl e
      | Inr t \<Rightarrow>
          (case loadImages L f cs of
             Inl e \<Rightarrow> Inl e
           | Inr cs' \<Rightarrow> Inr (cam\<lparr>imageTensor := t\<rparr> # cs')))"

text \<open>
  The input as \<open>main\<close> has it after loading: read from the project, cameras numbered,
  images loaded.
\<close>

definition loadInput :: "Loaders \<Rightarrow> CmdLine \<Rightarrow> failure + InputData" where
  "loadInput L c =
     (case inputDataFromX L (opt_input c) (opt_mesh_file c) of
        Inl e \<Rightarrow> Inl e
      | Inr inputData \<Rightarrow>
          (case loadImages L (main_downScaleFactor c) (assignIdx (cameras inputData)) of
             Inl e \<Rightarrow> Inl e
           | Inr cs \<Rightarrow> Inr (inputData\<lparr>cameras := cs\<rparr>)))"

text \<open>The validation at the end of \<open>main\<close>, on the withheld camera.\<close>

definition validation ::
  "'p Pipeline \<Rightarrow> CmdLine \<Rightarrow> Model \<Rightarrow> Camera \<Rightarrow> 'p \<Rightarrow> failure + event" where
  "validation P c m valCam p =
     (case forward P p valCam (nat (opt_num_iters c)) of
        Inl e \<Rightarrow> Inl e
      | Inr (rgb, p') \<Rightarrow>
          (case getImage (cv_resize P) valCam (getDownscaleFactor m (opt_num_iters c)) of
             Inl e \<Rightarrow> Inl e
           | Inr (gt, cam') \<Rightarrow>
               (case mainLoss_item P p' rgb gt (opt_ssim_weight c) of
                  Inl e \<Rightarrow> Inl e
                | Inr loss \<Rightarrow> Inr (Validate (filePath valCam) loss))))"

text \<open>
  The state at the start of the loop: the training cameras, the iterator over their
  indices, the freshly built model and one empty loss list per training camera.
\<close>

definition initialState :: "'p Pipeline \<Rightarrow> InputData \<Rightarrow> Camera list \<Rightarrow> 'p TrainState" where
  "initialState P inputData cams =
     \<lparr>ts_cams = cams,
      ts_camsIter = camsIter0 (std_shuffle P) (engine_seed P) (length cams),
      ts_tensors = initTensors P inputData,
      ts_N = points_xyz_size0 inputData,
      ts_lossesByCamera = replicate (length cams) [],
      ts_events = []\<rparr>"

text \<open>
  The \<open>try\<close> block of \<open>main\<close> and its handler: the events recorded and how the run
  ended. Writing \<open>losses.txt\<close> goes through a stream that does not throw and is left out.
\<close>

definition main_try :: "Loaders \<Rightarrow> 'p Pipeline \<Rightarrow> CmdLine \<Rightarrow> event list \<times> ending" where
  "main_try L P c =
     (case loadInput L c of
        Inl e \<Rightarrow> ([], handler e)
      | Inr inputData \<Rightarrow>
          (case getCameras (std_rand42 P) inputData (main_validate c) (opt_val_image c) of
             Inl e \<Rightarrow> ([], handler e)
           | Inr (cams, valCam) \<Rightarrow>
               let m = main_model c inputData (length cams)
               in (case trainLoop P c m (main_steps c) (initialState P inputData cams) of
                     (Some e, s) \<Rightarrow> (ts_events s, handler e)
                   | (None, s) \<Rightarrow>
                       (case savePlySplat P (ts_tensors s) (opt_output c) of
                          Some e \<Rightarrow> (ts_events s, handler e)
                        | None \<Rightarrow>
                            (case valCam of
                               None \<Rightarrow> (ts_events s, Returned)
                             | Some vi \<Rightarrow>
                                 (case validation P c m (cameras inputData ! vi) (ts_tensors s) of
                                    Inl e \<Rightarrow> (ts_events s, handler e)
                                  | Inr ev \<Rightarrow> (ts_events s @ [ev], Returned)))))))"

text \<open>
  \<open>main\<close>, from the point where the command line has been parsed. With \<open>--help\<close> or
  without an input it prints the usage and returns. Otherwise it reads the options,
  creates the directory for the validation renders, outside any \<open>try\<close> block, and enters
  the \<open>try\<close> block.
\<close>

definition main :: "Loaders \<Rightarrow> 'p Pipeline \<Rightarrow> CmdLine \<Rightarrow> event list \<times> ending" where
  "main L P c =
     (if opt_help c \<or> \<not> opt_input_given c then ([], Returned)
      else
        (case makeValRenderDir L c of
           Some e \<Rightarrow> ([], uncaught e)
         | None \<Rightarrow> main_try L P c))"

section \<open>Comparing runs\<close>

text \<open>
  The pipeline that behaves as \<open>P\<close> does, except that every loss it reads is \<open>x\<close>; an
  event with its loss replaced by \<open>x\<close>; and two training states that agree in all but
  the losses they have recorded, those of the first all being \<open>x\<close>.
\<close>

definition withLoss :: "float32 \<Rightarrow> 'p Pipeline \<Rightarrow> 'p Pipeline" where
  "withLoss x P =
     P\<lparr>mainLoss_item :=
         (\<lambda>p rgb gt w. case mainLoss_item P p rgb gt w of Inl e \<Rightarrow> Inl e | Inr l \<Rightarrow> Inr x)\<rparr>"

fun lossOf :: "event \<Rightarrow> float32" where
  "lossOf (TrainStep step i l) = l"
| "lossOf (Validate path l) = l"

fun setLoss :: "float32 \<Rightarrow> event \<Rightarrow> event" where
  "setLoss x (TrainStep step i l) = TrainStep step i x"
| "setLoss x (Validate path l) = Validate path x"

definition sameButLosses :: "float32 \<Rightarrow> 'p TrainState \<Rightarrow> 'p TrainState \<Rightarrow> bool" where
  "sameButLosses x s' s =
     (ts_cams s' = ts_cams s \<and> ts_camsIter s' = ts_camsIter s \<and> ts_tensors s' = ts_tensors s
      \<and> ts_N s' = ts_N s \<and> length (ts_lossesByCamera s') = length (ts_lossesByCamera s)
      \<and> ts_events s' = map (setLoss x) (ts_events s))"

text \<open>The step a training event records; a validation event records none.\<close>

fun stepOf :: "event \<Rightarrow> nat option" where
  "stepOf (TrainStep step i l) = Some step"
| "stepOf (Validate path l) = None"

section \<open>Concrete inputs\<close>

text \<open>
  The inputs at which the theorems below are instantiated. \<open>demo_model\<close> is the model
  that \<open>main\<close> builds with the default options for an input of two cameras and five
  points that has no mesh constraint.
\<close>

definition demo_camA :: Camera where
  "demo_camA = \<lparr>filePath = ''data/images/a.png'', idx = 0,
                 imageTensor = [0, 1 / 2, 1, 1 / 4], imagePyramids = Map.empty\<rparr>"

definition demo_camB :: Camera where
  "demo_camB = \<lparr>filePath = ''data/images/b.png'', idx = 1,
                 imageTensor = [1, 1, 0, 0], imagePyramids = Map.empty\<rparr>"

definition demo_inputData :: InputData where
  "demo_inputData =
     \<lparr>cameras = [demo_camA, demo_camB], points_xyz_size0 = 5, points_mesh = False\<rparr>"

text \<open>The same input with a mesh constraint, and the model built from it.\<close>

definition mesh_inputData :: InputData where
  "mesh_inputData = demo_inputData\<lparr>points_mesh := True\<rparr>"

definition mesh_model :: Model where
  "mesh_model =
     Model_ctor mesh_inputData 2 2 3000 3 1000 100 500 30 15000 0.0002 0.01 4000 0.05 30000"

text \<open>
  A rescaling that keeps one element in \<open>d\<close> and, like OpenCV, throws when nothing
  would be left.
\<close>

definition demo_resize :: "tensor \<Rightarrow> int \<Rightarrow> failure + tensor" where
  "demo_resize t d =
     (if length t div nat d = 0 then Inl (foreign_error ''cv::resize: empty size'')
      else Inr (take (length t div nat d) t))"

definition demo_model :: Model where
  "demo_model =
     Model_ctor demo_inputData 2 2 3000 3 1000 100 500 30 15000 0.0002 0.01 4000 0.05 30000"

text \<open>A shuffle that rotates by the engine state, and a stand-in for the structural
  similarity.\<close>

definition demo_shuffle :: "nat \<Rightarrow> nat list \<Rightarrow> nat list \<times> nat" where
  "demo_shuffle g xs = (rotate g xs, g + 1)"

definition demo_ssim_eval :: "SSIM \<Rightarrow> tensor \<Rightarrow> tensor \<Rightarrow> real" where
  "demo_ssim_eval w a b = (if a = b then 1 else 1 / real (window_size w + channel w))"

text \<open>
  A nerfstudio project with two frames, read without failure, on a file system where
  only the directory \<open>/dev/null/x\<close> cannot be created; a pipeline whose content
  is the number of optimizer steps taken, whose loss reads NaN before the first
  optimizer step and 1/4 afterwards, and whose density controller, were it run, would
  double the number of primitives; and a command line that withholds \<open>b.png\<close> and
  trains for two steps.
\<close>

definition demo_transforms :: Transforms where
  "demo_transforms =
     \<lparr>cameraModel = ''OPENCV'',
      frames = [\<lparr>file_path = ''images/a.png''\<rparr>, \<lparr>file_path = ''images/b.png''\<rparr>],
      plyFilePath = ''sparse_pc.ply''\<rparr>"

definition demo_loaders :: Loaders where
  "demo_loaders =
     \<lparr>fs_exists = (\<lambda>p. Inr (p = ''data/transforms.json'')),
      fs_create_directories = (\<lambda>p. if p = ''/dev/null/x''
                                    then Some (foreign_error ''filesystem error: cannot create directories'')
                                    else None),
      readTransforms = (\<lambda>p. Inr demo_transforms),
      readPointSet = (\<lambda>p. Inr 5),
      loadMeshPoints = (\<lambda>p. Inr 5),
      autoScaleAndCenterPoses = (\<lambda>t. None),
      inputDataFromColmap = (\<lambda>p. Inl (foreign_error ''not a colmap project'')),
      imreadTensor = (\<lambda>f cam. Inr (if filename (filePath cam) = ''a.png''
                                     then [0, 1 / 2, 1, 1 / 4] else [1, 1, 0, 0]))\<rparr>"

definition demo_pipeline :: "nat Pipeline" where
  "demo_pipeline =
     \<lparr>std_rand42 = 71876166,
      std_shuffle = demo_shuffle,
      engine_seed = 42,
      cv_resize = demo_resize,
      initTensors = (\<lambda>inputData. 0),
      optimizersZeroGrad = (\<lambda>p. p),
      forward = (\<lambda>p cam step. Inr ([1 / 2], p)),
      mainLoss_item = (\<lambda>p rgb gt w. Inr (if p = 0 then NaN else Finite (1 / 4))),
      backward = (\<lambda>p. Inr p),
      optimizersStep = (\<lambda>p. Inr (Suc p)),
      schedulersStep = (\<lambda>p step. Inr p),
      updateStats = (\<lambda>p. p),
      densify = (\<lambda>m step np. Inr (2 * fst np, snd np)),
      savePlySplat = (\<lambda>p name. None),
      saveCheckpoint = (\<lambda>p name step. None),
      writeValRender = (\<lambda>dir step i rgb gt. None)\<rparr>"

definition demo_cmd :: CmdLine where
  "demo_cmd =
     \<lparr>opt_help = False,
      opt_input_given = True,
      opt_input = ''data'',
      opt_output = ''splat.ply'',
      opt_save_every = - 1,
      opt_val = True,
      opt_val_image = ''b.png'',
      opt_val_render_given = False,
      opt_val_render = [],
      opt_val_every = 50,
      opt_mesh_file = [],
      opt_fixed = False,
      opt_num_iters = 2,
      opt_downscale_factor = 1,
      opt_num_downscales = 2,
      opt_resolution_schedule = 3000,
      opt_sh_degree = 3,
      opt_sh_degree_interval = 1000,
      opt_ssim_weight = 0.2,
      opt_refine_every = 100,
      opt_warmup_length = 500,
      opt_reset_alpha_every = 30,
      opt_stop_split_at = 15000,
      opt_densify_grad_thresh = 0.0002,
      opt_densify_size_thresh = 0.01,
      opt_stop_screen_size_at = 4000,
      opt_split_screen_size = 0.05\<rparr>"

text \<open>
  The model of that run, and the states it goes through: the engine state, the number of
  optimizer steps taken, the events and the losses of the one training camera.
\<close>

definition demo_run_model :: Model where
  "demo_run_model = main_model demo_cmd demo_inputData 1"

definition demo_state :: "nat \<Rightarrow> nat \<Rightarrow> event list \<Rightarrow> float32 list \<Rightarrow> nat TrainState" where
  "demo_state g p evs ls =
     \<lparr>ts_cams = [if p = 0 then demo_camA else demo_camA\<lparr>imagePyramids := [4 \<mapsto> [0]]\<rparr>],
      ts_camsIter = \<lparr>it_v = [0], it_i = 0, it_engine = g\<rparr>,
      ts_tensors = p, ts_N = 5, ts_lossesByCamera = [ls], ts_events = evs\<rparr>"

text \<open>
  Variants: a project whose manifest names no point file; a command line with
  \<open>--fixed\<close>, no warm-up and no validation; one without \<open>--fixed\<close> that refines at every
  step from the first; and one that withholds \<open>a.png\<close>, the first camera, and trains for
  one step.
\<close>

definition noply_loaders :: Loaders where
  "noply_loaders = demo_loaders\<lparr>readTransforms := (\<lambda>p. Inr (demo_transforms\<lparr>plyFilePath := []\<rparr>))\<rparr>"

definition fixed_cmd :: CmdLine where
  "fixed_cmd = demo_cmd\<lparr>opt_fixed := True, opt_warmup_length := 0, opt_val := False\<rparr>"

definition eager_cmd :: CmdLine where
  "eager_cmd = demo_cmd\<lparr>opt_warmup_length := 0, opt_refine_every := 1, opt_val := False\<rparr>"

definition early_cmd :: CmdLine where
  "early_cmd = demo_cmd\<lparr>opt_val_image := ''a.png'', opt_num_iters := 1\<rparr>"

section \<open>Theorems\<close>

subsection \<open>The concrete model\<close>

lemma demo_model_fields:
  "numDownscales demo_model = 2"
  "resolutionSchedule demo_model = 3000"
  "refineEvery demo_model = 100"
  "warmupLength demo_model = 500"
  "stopSplitAt demo_model = 15000"
  "hasMeshConstraint demo_model = False"
  "ssim demo_model = \<lparr>window_size = 11, channel = 3\<rparr>"
  by (simp_all add: demo_model_def Model_ctor_def demo_inputData_def Let_def)

subsection \<open>The downscale schedule\<close>

text \<open>
  C4. For a positive \<open>resolutionSchedule\<close>, a non-negative \<open>numDownscales\<close> and every
  step \<open>t \<ge> 0\<close>: the downscale factor is \<open>2^numDownscales\<close> at step 0; advancing by
  \<open>resolutionSchedule\<close> steps halves it, but never below 1; it always lies between 1 and its
  initial value; and it is exactly 1 for every \<open>t \<ge> resolutionSchedule * numDownscales\<close>.
  Between two multiples of \<open>resolutionSchedule\<close> it does not change: at step \<open>t\<close> it is what
  it was at the last multiple of \<open>resolutionSchedule\<close> up to \<open>t\<close>. So at every step it is
  the initial value halved once per \<open>resolutionSchedule\<close> steps completed, or 1 where that
  would be less; and before step \<open>resolutionSchedule * numDownscales\<close> it is greater than 1.
\<close>

theorem downscale_schedule:
  assumes rs: "0 < resolutionSchedule m" and nd: "0 \<le> numDownscales m" and t: "0 \<le> t"
  shows "getDownscaleFactor m 0 = 2 ^ nat (numDownscales m)
       \<and> getDownscaleFactor m (t + resolutionSchedule m) = max 1 (getDownscaleFactor m t div 2)
       \<and> 1 \<le> getDownscaleFactor m t
       \<and> getDownscaleFactor m t \<le> 2 ^ nat (numDownscales m)
       \<and> (resolutionSchedule m * numDownscales m \<le> t \<longrightarrow> getDownscaleFactor m t = 1)
       \<and> getDownscaleFactor m t = getDownscaleFactor m (t - t mod resolutionSchedule m)
       \<and> getDownscaleFactor m t =
           max 1 (2 ^ nat (numDownscales m) div 2 ^ nat (t div resolutionSchedule m))
       \<and> (t < resolutionSchedule m * numDownscales m \<longrightarrow> 1 < getDownscaleFactor m t)"
proof (intro conjI impI)
  define rs where "rs = resolutionSchedule m"
  define nd where "nd = numDownscales m"
  note defs = getDownscaleFactor_def rs_def [symmetric] nd_def [symmetric]
  have rs: "0 < rs" and nd: "0 \<le> nd" using assms by (simp_all add: rs_def nd_def)
  have q: "(t + rs) div rs = t div rs + 1" using rs by simp
  have k: "0 \<le> t div rs" using rs t by (simp add: pos_imp_zdiv_nonneg_iff)
  show "getDownscaleFactor m 0 = 2 ^ nat (numDownscales m)"
    using nd by (simp add: defs)
  show "getDownscaleFactor m (t + resolutionSchedule m) = max 1 (getDownscaleFactor m t div 2)"
  proof (cases "nd - t div rs \<le> 0")
    case True
    then show ?thesis by (simp add: defs q max_def)
  next
    case False
    then have e: "nat (nd - t div rs) = Suc (nat (nd - t div rs - 1))" by simp
    have "getDownscaleFactor m t = 2 * 2 ^ nat (nd - t div rs - 1)"
      using False by (simp add: defs max_def e)
    moreover have "max (nd - (t div rs + 1)) 0 = nd - t div rs - 1"
      using False by linarith
    then have "getDownscaleFactor m (t + rs) = 2 ^ nat (nd - t div rs - 1)"
      by (simp only: defs q)
    moreover have "(1::int) \<le> 2 ^ nat (nd - t div rs - 1)" by simp
    ultimately show ?thesis by (simp add: max_def rs_def)
  qed
  show "1 \<le> getDownscaleFactor m t" by (simp add: defs)
  from k have "nat (max (nd - t div rs) 0) \<le> nat nd" by simp
  then show "getDownscaleFactor m t \<le> 2 ^ nat (numDownscales m)"
    unfolding defs by (simp add: power_increasing)
  have "t - t mod rs = rs * (t div rs)" by (simp add: minus_mod_eq_mult_div)
  then have "(t - t mod rs) div rs = t div rs" using rs by simp
  then show "getDownscaleFactor m t = getDownscaleFactor m (t - t mod resolutionSchedule m)"
    by (simp add: defs)
  show "getDownscaleFactor m t =
          max 1 (2 ^ nat (numDownscales m) div 2 ^ nat (t div resolutionSchedule m))"
  proof (cases "t div rs \<le> nd")
    case True
    then have le: "nat (t div rs) \<le> nat nd" by simp
    have "nat (max (nd - t div rs) 0) = nat nd - nat (t div rs)"
      using True k by (simp add: nat_diff_distrib max_def)
    then have "getDownscaleFactor m t = (2::int) ^ (nat nd - nat (t div rs))"
      by (simp only: defs)
    also have "\<dots> = 2 ^ nat nd div 2 ^ nat (t div rs)"
      using le by (simp add: power_diff)
    finally have c: "getDownscaleFactor m t = 2 ^ nat nd div 2 ^ nat (t div rs)" .
    have "1 \<le> getDownscaleFactor m t" by (simp add: defs)
    with c show ?thesis by (simp add: max_def rs_def nd_def)
  next
    case False
    then have lt: "nat nd < nat (t div rs)" using nd by simp
    have "(2::int) ^ nat nd < 2 ^ nat (t div rs)"
      using lt by (simp add: power_strict_increasing)
    then have "(2::int) ^ nat nd div 2 ^ nat (t div rs) = 0"
      by (simp add: div_pos_pos_trivial)
    moreover have "getDownscaleFactor m t = 1" using False by (simp add: defs max_def)
    ultimately show ?thesis by (simp add: rs_def nd_def)
  qed
  {
    assume "resolutionSchedule m * numDownscales m \<le> t"
    then have "rs * nd \<le> t" by (simp add: rs_def nd_def)
    then have "nd \<le> t div rs" using rs
      by (metis div_mult_self1_is_m zdiv_mono1 mult.commute nonzero_mult_div_cancel_left less_irrefl)
    then show "getDownscaleFactor m t = 1" by (simp add: defs)
  }
  {
    assume "t < resolutionSchedule m * numDownscales m"
    then have "t < nd * rs" by (simp add: rs_def nd_def mult.commute)
    have "t div rs < nd"
    proof (rule ccontr)
      assume "\<not> t div rs < nd"
      then have "nd * rs \<le> t div rs * rs" using rs by (simp add: mult_right_mono)
      moreover have "t div rs * rs + t mod rs = t" by simp
      moreover have "0 \<le> t mod rs" using rs by simp
      ultimately show False using \<open>t < nd * rs\<close> by linarith
    qed
    then have "nat (max (nd - t div rs) 0) = Suc (nat (nd - t div rs - 1))" by simp
    then have "getDownscaleFactor m t = 2 * 2 ^ nat (nd - t div rs - 1)"
      by (simp only: defs power_Suc)
    moreover have "(1::int) \<le> 2 ^ nat (nd - t div rs - 1)" by simp
    ultimately show "1 < getDownscaleFactor m t" by linarith
  }
qed

theorem downscale_schedule_witness:
  "getDownscaleFactor demo_model 0 = 4
   \<and> getDownscaleFactor demo_model (6000 + 3000) = max 1 (getDownscaleFactor demo_model 6000 div 2)
   \<and> 1 \<le> getDownscaleFactor demo_model 6000
   \<and> getDownscaleFactor demo_model 6000 \<le> 4
   \<and> getDownscaleFactor demo_model 6000 = 1
   \<and> getDownscaleFactor demo_model 4500 = getDownscaleFactor demo_model 3000
   \<and> getDownscaleFactor demo_model 4500 = 2
   \<and> getDownscaleFactor demo_model 1 = 4
   \<and> 1 < getDownscaleFactor demo_model 5999"
  using downscale_schedule [of demo_model 6000] downscale_schedule [of demo_model 4500]
    downscale_schedule [of demo_model 1] downscale_schedule [of demo_model 5999]
  by (simp add: demo_model_fields)

subsection \<open>Learning rates under a mesh constraint\<close>

lemma Model_ctor_lrs:
  "hasMeshConstraint (Model_ctor a nc nd rs sd sdi re wl rae ssa dgt dst sssa sss ms) = points_mesh a"
  "meansOpt_lr (Model_ctor a nc nd rs sd sdi re wl rae ssa dgt dst sssa sss ms) = lr_means (points_mesh a)"
  "scalesOpt_lr (Model_ctor a nc nd rs sd sdi re wl rae ssa dgt dst sssa sss ms) = lr_scales (points_mesh a)"
  "quatsOpt_lr (Model_ctor a nc nd rs sd sdi re wl rae ssa dgt dst sssa sss ms) = lr_quats (points_mesh a)"
  "featuresDcOpt_lr (Model_ctor a nc nd rs sd sdi re wl rae ssa dgt dst sssa sss ms) = lr_fdc (points_mesh a)"
  "featuresRestOpt_lr (Model_ctor a nc nd rs sd sdi re wl rae ssa dgt dst sssa sss ms) = lr_frest (points_mesh a)"
  "opacitiesOpt_lr (Model_ctor a nc nd rs sd sdi re wl rae ssa dgt dst sssa sss ms) = lr_opacities (points_mesh a)"
  "meansOptScheduler_lrFinal (Model_ctor a nc nd rs sd sdi re wl rae ssa dgt dst sssa sss ms) = 16 / 10 ^ 7"
  by (simp_all add: Model_ctor_def Let_def)

lemmas lr_defs = lr_means_def lr_scales_def lr_quats_def lr_fdc_def lr_frest_def lr_opacities_def

text \<open>
  C1, as amended. With a mesh constraint (\<open>inputData.points.mesh\<close> set) the constructor
  gives the optimizers of the positions, rotations and opacities the learning rate
  \<open>1 / 10 ^ 11\<close> and that of the scales \<open>1 / 10 ^ 10\<close>, each at most a millionth of the rate
  used without a mesh constraint; the two colour optimizers keep the rates they have
  without one, 0.0025 and 0.000125. So at construction the opacity rate is near zero like
  the three geometry rates, and only the two colour rates are not. The scheduler of the
  position optimizer is constructed with the final rate 0.0000016 with and without a mesh
  constraint; that is 160000 times the position rate the constructor sets under a mesh
  constraint.
\<close>

theorem mesh_learning_rates:
  assumes mesh: "points_mesh a" and plain: "\<not> points_mesh b"
  shows "let m = Model_ctor a nc nd rs sd sdi re wl rae ssa dgt dst sssa sss ms;
             m' = Model_ctor b nc' nd' rs' sd' sdi' re' wl' rae' ssa' dgt' dst' sssa' sss' ms'
         in hasMeshConstraint m \<and> \<not> hasMeshConstraint m'
          \<and> meansOpt_lr m = 1 / 10 ^ 11 \<and> meansOpt_lr m \<le> meansOpt_lr m' / 10 ^ 6
          \<and> scalesOpt_lr m = 1 / 10 ^ 10 \<and> scalesOpt_lr m \<le> scalesOpt_lr m' / 10 ^ 6
          \<and> quatsOpt_lr m = 1 / 10 ^ 11 \<and> quatsOpt_lr m \<le> quatsOpt_lr m' / 10 ^ 6
          \<and> opacitiesOpt_lr m = 1 / 10 ^ 11 \<and> opacitiesOpt_lr m \<le> opacitiesOpt_lr m' / 10 ^ 6
          \<and> featuresDcOpt_lr m = featuresDcOpt_lr m' \<and> featuresDcOpt_lr m = 25 / 10 ^ 4
          \<and> featuresRestOpt_lr m = featuresRestOpt_lr m' \<and> featuresRestOpt_lr m = 125 / 10 ^ 6
          \<and> meansOptScheduler_lrFinal m = 16 / 10 ^ 7
          \<and> meansOptScheduler_lrFinal m' = 16 / 10 ^ 7
          \<and> meansOptScheduler_lrFinal m = 160000 * meansOpt_lr m"
  using mesh plain by (simp add: Let_def Model_ctor_lrs lr_defs)

theorem mesh_learning_rates_witness:
  "hasMeshConstraint mesh_model \<and> \<not> hasMeshConstraint demo_model
   \<and> meansOpt_lr mesh_model = 1 / 10 ^ 11 \<and> meansOpt_lr mesh_model \<le> meansOpt_lr demo_model / 10 ^ 6
   \<and> scalesOpt_lr mesh_model = 1 / 10 ^ 10 \<and> scalesOpt_lr mesh_model \<le> scalesOpt_lr demo_model / 10 ^ 6
   \<and> quatsOpt_lr mesh_model = 1 / 10 ^ 11 \<and> quatsOpt_lr mesh_model \<le> quatsOpt_lr demo_model / 10 ^ 6
   \<and> opacitiesOpt_lr mesh_model = 1 / 10 ^ 11 \<and> opacitiesOpt_lr mesh_model \<le> opacitiesOpt_lr demo_model / 10 ^ 6
   \<and> featuresDcOpt_lr mesh_model = featuresDcOpt_lr demo_model \<and> featuresDcOpt_lr mesh_model = 25 / 10 ^ 4
   \<and> featuresRestOpt_lr mesh_model = featuresRestOpt_lr demo_model \<and> featuresRestOpt_lr mesh_model = 125 / 10 ^ 6
   \<and> meansOptScheduler_lrFinal mesh_model = 16 / 10 ^ 7
   \<and> meansOptScheduler_lrFinal demo_model = 16 / 10 ^ 7
   \<and> meansOptScheduler_lrFinal mesh_model = 160000 * meansOpt_lr mesh_model"
proof -
  have a: "points_mesh mesh_inputData" by (simp add: mesh_inputData_def)
  have b: "\<not> points_mesh demo_inputData" by (simp add: demo_inputData_def)
  show ?thesis
    using mesh_learning_rates [OF a b, of 2 2 3000 3 1000 100 500 30 15000 "0.0002" "0.01" 4000 "0.05" 30000
        2 2 3000 3 1000 100 500 30 15000 "0.0002" "0.01" 4000 "0.05" 30000]
    unfolding mesh_model_def demo_model_def Let_def by simp
qed

text \<open>
  C1 as stated fails: in the mesh-constrained model the opacity optimizer has the very
  learning rate of the position optimizer, so no notion of "near zero" puts the position,
  scale and rotation rates on one side and the opacity rate on the other.
\<close>

theorem mesh_opacity_lr_counterexample:
  "hasMeshConstraint mesh_model
   \<and> opacitiesOpt_lr mesh_model = 1 / 10 ^ 11
   \<and> opacitiesOpt_lr mesh_model = meansOpt_lr mesh_model
   \<and> \<not> (\<exists>nearZero.
          nearZero (meansOpt_lr mesh_model) \<and> nearZero (scalesOpt_lr mesh_model)
          \<and> nearZero (quatsOpt_lr mesh_model)
          \<and> \<not> nearZero (featuresDcOpt_lr mesh_model) \<and> \<not> nearZero (featuresRestOpt_lr mesh_model)
          \<and> \<not> nearZero (opacitiesOpt_lr mesh_model))"
proof -
  have eq: "opacitiesOpt_lr mesh_model = meansOpt_lr mesh_model"
    by (simp add: mesh_model_def Model_ctor_lrs lr_defs mesh_inputData_def)
  have ev: "hasMeshConstraint mesh_model" "opacitiesOpt_lr mesh_model = 1 / 10 ^ 11"
    by (simp_all add: mesh_model_def Model_ctor_lrs lr_defs mesh_inputData_def)
  have "\<not> (\<exists>nearZero.
          nearZero (meansOpt_lr mesh_model) \<and> nearZero (scalesOpt_lr mesh_model)
          \<and> nearZero (quatsOpt_lr mesh_model)
          \<and> \<not> nearZero (featuresDcOpt_lr mesh_model) \<and> \<not> nearZero (featuresRestOpt_lr mesh_model)
          \<and> \<not> nearZero (opacitiesOpt_lr mesh_model))"
    unfolding eq by blast
  with ev eq show ?thesis by blast
qed

subsection \<open>The image pyramid of a camera\<close>

lemma getImage_imageTensor:
  "getImage rs cam d = Inr (t, cam') \<Longrightarrow> imageTensor cam' = imageTensor cam"
  by (auto simp: getImage_def split: if_splits option.splits sum.splits)

lemma getImage_keeps:
  "getImage rs cam d' = Inr (t', cam') \<Longrightarrow> imagePyramids cam d = Some t \<Longrightarrow> imagePyramids cam' d = Some t"
  by (auto simp: getImage_def split: if_splits option.splits sum.splits)

lemma getImage_stores:
  "getImage rs cam d = Inr (t, cam') \<Longrightarrow> 1 < d \<Longrightarrow> imagePyramids cam' d = Some t"
  by (auto simp: getImage_def split: if_splits option.splits sum.splits)

lemma getImages_imageTensor:
  "getImages rs cam ds = Inr cam' \<Longrightarrow> imageTensor cam' = imageTensor cam"
  by (induction ds arbitrary: cam) (auto split: sum.splits dest: getImage_imageTensor)

lemma getImages_keeps:
  "getImages rs cam ds = Inr cam' \<Longrightarrow> imagePyramids cam d = Some t \<Longrightarrow> imagePyramids cam' d = Some t"
  by (induction ds arbitrary: cam) (auto split: sum.splits dest: getImage_keeps)

text \<open>
  C9. \<open>getImage\<close> with a factor \<open>d \<le> 1\<close> returns the camera's image and leaves the
  camera as it is. With \<open>d > 1\<close> and a tensor stored for \<open>d\<close>, it returns the stored
  tensor and leaves the camera as it is, whatever the rescaling would compute or throw.
  With \<open>d > 1\<close> and nothing stored for \<open>d\<close>, it returns the rescaled image and stores it
  under \<open>d\<close> (or throws what the rescaling throws, storing nothing). Whatever a call with
  \<open>d\<close> returned, every later call with the same \<open>d\<close>, after any other successful calls
  on that camera, returns the same tensor and changes nothing.
\<close>

theorem getImage_cached:
  "(d \<le> 1 \<longrightarrow> getImage rs cam d = Inr (imageTensor cam, cam))
   \<and> (1 < d \<and> imagePyramids cam d = Some t \<longrightarrow> getImage rs cam d = Inr (t, cam))
   \<and> (1 < d \<and> imagePyramids cam d = None \<and> rs (imageTensor cam) d = Inr t \<longrightarrow>
        getImage rs cam d = Inr (t, cam\<lparr>imagePyramids := (imagePyramids cam)(d \<mapsto> t)\<rparr>))
   \<and> (1 < d \<and> imagePyramids cam d = None \<and> rs (imageTensor cam) d = Inl e \<longrightarrow>
        getImage rs cam d = Inl e)
   \<and> (getImage rs cam d = Inr (t1, cam1) \<and> getImages rs cam1 ds = Inr cam2 \<longrightarrow>
        getImage rs cam2 d = Inr (t1, cam2))"
proof (intro conjI impI)
  show "d \<le> 1 \<Longrightarrow> getImage rs cam d = Inr (imageTensor cam, cam)"
    by (simp add: getImage_def)
  show "1 < d \<and> imagePyramids cam d = Some t \<Longrightarrow> getImage rs cam d = Inr (t, cam)"
    by (simp add: getImage_def)
  show "1 < d \<and> imagePyramids cam d = None \<and> rs (imageTensor cam) d = Inr t \<Longrightarrow>
        getImage rs cam d = Inr (t, cam\<lparr>imagePyramids := (imagePyramids cam)(d \<mapsto> t)\<rparr>)"
    by (simp add: getImage_def)
  show "1 < d \<and> imagePyramids cam d = None \<and> rs (imageTensor cam) d = Inl e \<Longrightarrow>
        getImage rs cam d = Inl e"
    by (simp add: getImage_def)
  assume a: "getImage rs cam d = Inr (t1, cam1) \<and> getImages rs cam1 ds = Inr cam2"
  show "getImage rs cam2 d = Inr (t1, cam2)"
  proof (cases "d \<le> 1")
    case True
    with a have "t1 = imageTensor cam" by (auto simp: getImage_def)
    moreover from a have "imageTensor cam2 = imageTensor cam"
      by (metis getImage_imageTensor getImages_imageTensor)
    ultimately show ?thesis using True by (simp add: getImage_def)
  next
    case False
    with a have "imagePyramids cam1 d = Some t1"
      using getImage_stores [of rs cam d t1 cam1] by simp
    with a have "imagePyramids cam2 d = Some t1"
      using getImages_keeps [of rs cam1 ds cam2 d t1] by simp
    with False show ?thesis by (simp add: getImage_def)
  qed
qed

text \<open>
  At the concrete camera: factor 1; a first call with factor 2; factor 5, for which the
  rescaling throws; a call with factor 2 after calls with the factors 3, 1 and 2; and a
  call with factor 5 on a camera that already holds a tensor for 5, which is returned
  although the rescaling would throw.
\<close>

theorem getImage_cached_witness:
  "getImage demo_resize demo_camA 1 = Inr ([0, 1 / 2, 1, 1 / 4], demo_camA)
   \<and> getImage demo_resize demo_camA 2 =
       Inr ([0, 1 / 2], demo_camA\<lparr>imagePyramids := [2 \<mapsto> [0, 1 / 2]]\<rparr>)
   \<and> getImage demo_resize demo_camA 5 = Inl (foreign_error ''cv::resize: empty size'')
   \<and> getImage demo_resize (demo_camA\<lparr>imagePyramids := [2 \<mapsto> [0, 1 / 2], 3 \<mapsto> [0]]\<rparr>) 2 =
       Inr ([0, 1 / 2], demo_camA\<lparr>imagePyramids := [2 \<mapsto> [0, 1 / 2], 3 \<mapsto> [0]]\<rparr>)
   \<and> getImage demo_resize (demo_camA\<lparr>imagePyramids := [5 \<mapsto> [7]]\<rparr>) 5 =
       Inr ([7], demo_camA\<lparr>imagePyramids := [5 \<mapsto> [7]]\<rparr>)"
proof -
  let ?cam1 = "demo_camA\<lparr>imagePyramids := [2 \<mapsto> [0, 1 / 2]]\<rparr>"
  let ?cam2 = "demo_camA\<lparr>imagePyramids := [2 \<mapsto> [0, 1 / 2], 3 \<mapsto> [0]]\<rparr>"
  let ?cam5 = "demo_camA\<lparr>imagePyramids := [5 \<mapsto> [7]]\<rparr>"
  have img: "imageTensor demo_camA = [0, 1 / 2, 1, 1 / 4]" "imagePyramids demo_camA = Map.empty"
    by (simp_all add: demo_camA_def)
  have r2: "demo_resize (imageTensor demo_camA) 2 = Inr [0, 1 / 2]"
    and r5: "demo_resize (imageTensor demo_camA) 5 = Inl (foreign_error ''cv::resize: empty size'')"
    by (simp_all add: demo_resize_def img)
  have first: "getImage demo_resize demo_camA 2 = Inr ([0, 1 / 2], ?cam1)"
    using getImage_cached [of 2 demo_resize demo_camA "[0, 1 / 2]"] r2 img by simp
  have later: "getImages demo_resize ?cam1 [3, 1, 2] = Inr ?cam2"
    by (simp add: getImage_def demo_resize_def img)
  have hit: "getImage demo_resize ?cam5 5 = Inr ([7], ?cam5)"
    using getImage_cached [of 5 demo_resize ?cam5 "[7]"] by simp
  show ?thesis
    using getImage_cached [of 1 demo_resize demo_camA] img
      getImage_cached [of 5 demo_resize demo_camA _ "foreign_error ''cv::resize: empty size''"] r5
      getImage_cached [of 2 demo_resize demo_camA _ _ "[0, 1 / 2]" ?cam1 "[3, 1, 2]" ?cam2]
      first later hit
    by simp
qed

subsection \<open>The camera iterator\<close>

lemma shuffleV_fields:
  "it_i (shuffleV sh it) = 0"
  "it_v (shuffleV sh it) = fst (sh (it_engine it) (it_v it))"
  by (simp_all add: shuffleV_def split: prod.splits)

lemma draws_append:
  "length (draws sh it a) = a \<Longrightarrow>
   draws sh it (a + b) = draws sh it a @ draws sh (advance sh it a) b"
proof (induction a arbitrary: it)
  case 0
  then show ?case by simp
next
  case (Suc a)
  then show ?case by (auto split: sum.splits prod.splits)
qed

lemma draws_rest_of_epoch:
  assumes "it_i it + k = length (it_v it)"
  shows "draws sh it k = drop (it_i it) (it_v it)
       \<and> (0 < k \<longrightarrow> advance sh it k = shuffleV sh (it\<lparr>it_i := length (it_v it)\<rparr>))"
  using assms
proof (induction k arbitrary: it)
  case 0
  then show ?case by simp
next
  case (Suc k)
  let ?it' = "it\<lparr>it_i := it_i it + 1\<rparr>"
  from Suc.prems have lt: "it_i it < length (it_v it)" by simp
  show ?case
  proof (cases k)
    case 0
    with Suc.prems have last: "Suc (it_i it) = length (it_v it)" by simp
    then have nx: "iter_next sh it = Inr (it_v it ! it_i it, shuffleV sh ?it')"
      using lt by (simp add: iter_next_def Let_def)
    have "drop (it_i it) (it_v it) = [it_v it ! it_i it]"
      using last lt by (metis Cons_nth_drop_Suc drop_all order_refl)
    moreover have "?it' = it\<lparr>it_i := length (it_v it)\<rparr>" using last by simp
    ultimately show ?thesis using 0 nx by simp
  next
    case (Suc j)
    with Suc.prems have more: "Suc (it_i it) < length (it_v it)" by simp
    then have nx: "iter_next sh it = Inr (it_v it ! it_i it, ?it')"
      using lt by (simp add: iter_next_def Let_def)
    have "it_i ?it' + k = length (it_v ?it')" using Suc.prems by simp
    from Suc.IH [OF this] Suc
    have ih: "draws sh ?it' k = drop (Suc (it_i it)) (it_v it)"
      "advance sh ?it' k = shuffleV sh (it\<lparr>it_i := length (it_v it)\<rparr>)"
      by simp_all
    have "drop (it_i it) (it_v it) = it_v it ! it_i it # drop (Suc (it_i it)) (it_v it)"
      using lt by (simp add: Cons_nth_drop_Suc)
    then show ?thesis using nx ih by simp
  qed
qed

lemma epochStart_length: "epochStart n it \<Longrightarrow> length (it_v it) = n"
  by (metis epochStart_def length_upt diff_zero size_mset)

lemma epoch:
  assumes perm: "\<And>g xs. mset (fst (sh g xs)) = mset xs"
    and n: "0 < n" and st: "epochStart n it"
  shows "draws sh it n = it_v it \<and> epochStart n (advance sh it n)"
proof -
  have len: "length (it_v it) = n" using st by (rule epochStart_length)
  have i0: "it_i it = 0" using st by (simp add: epochStart_def)
  from draws_rest_of_epoch [of it n sh] len i0 n
  have d: "draws sh it n = it_v it"
    and a: "advance sh it n = shuffleV sh (it\<lparr>it_i := length (it_v it)\<rparr>)" by simp_all
  have "epochStart n (advance sh it n)"
    using st by (simp add: a epochStart_def shuffleV_fields perm)
  with d show ?thesis by simp
qed

lemma advance_add:
  "length (draws sh it a) = a \<Longrightarrow> advance sh it (a + b) = advance sh (advance sh it a) b"
proof (induction a arbitrary: it)
  case 0
  then show ?case by simp
next
  case (Suc a)
  then show ?case by (auto split: sum.splits prod.splits)
qed

lemma epochs:
  assumes perm: "\<And>g xs. mset (fst (sh g xs)) = mset xs"
    and n: "0 < n" and st: "epochStart n it"
  shows "length (draws sh it (k * n)) = k * n \<and> epochStart n (advance sh it (k * n))"
proof (induction k)
  case 0
  then show ?case using st by simp
next
  case (Suc k)
  let ?it = "advance sh it (k * n)"
  from Suc have len: "length (draws sh it (k * n)) = k * n" and st': "epochStart n ?it"
    by simp_all
  from epoch [OF perm n st'] have e: "draws sh ?it n = it_v ?it" "epochStart n (advance sh ?it n)"
    by simp_all
  have "draws sh it (k * n + n) = draws sh it (k * n) @ it_v ?it"
    using draws_append [OF len, of n] e by simp
  moreover have "advance sh it (k * n + n) = advance sh ?it n"
    using advance_add [OF len, of n] .
  ultimately show ?case using len e epochStart_length [OF st'] by (simp add: add.commute)
qed

lemma camsIter0_epochStart:
  assumes perm: "\<And>g xs. mset (fst (sh g xs)) = mset xs"
  shows "epochStart n (camsIter0 sh seed n)"
  by (simp add: camsIter0_def newIterator_def epochStart_def shuffleV_fields perm)

lemma epoch_window:
  assumes perm: "\<And>g xs. mset (fst (sh g xs)) = mset xs"
    and n: "0 < n" and st: "epochStart n it" and m: "Suc k * n \<le> m"
  shows "take n (drop (k * n) (draws sh it m)) = it_v (advance sh it (k * n))"
proof -
  let ?it = "advance sh it (k * n)"
  from epochs [OF perm n st, where k = k]
  have len: "length (draws sh it (k * n)) = k * n" and st': "epochStart n ?it" by simp_all
  from epoch [OF perm n st'] have e: "draws sh ?it n = it_v ?it" by simp
  have ln: "length (it_v ?it) = n" using st' by (rule epochStart_length)
  define r where "r = m - Suc k * n"
  have r: "m = k * n + (n + r)" using m by (simp add: r_def)
  have "draws sh it m = draws sh it (k * n) @ draws sh ?it (n + r)"
    unfolding r using draws_append [OF len] .
  moreover have "draws sh ?it (n + r) = it_v ?it @ draws sh (advance sh ?it n) r"
    using draws_append [of sh ?it n r] e ln by simp
  ultimately show ?thesis using len ln by simp
qed

text \<open>
  C3. Let the shuffle return a permutation of its argument, and let there be \<open>n > 0\<close>
  cameras. In the sequence of the first \<open>m\<close> selections of the training loop's iterator,
  every window of \<open>n\<close> selections that starts at a multiple \<open>k * n\<close> of \<open>n\<close> and lies
  within the sequence is a permutation of \<open>0, ..., n - 1\<close>: no index repeats in it and
  every index occurs.
\<close>

theorem camera_epochs:
  assumes perm: "\<And>g xs. mset (fst (sh g xs)) = mset xs"
    and n: "0 < n" and m: "Suc k * n \<le> m"
  shows "mset (take n (drop (k * n) (draws sh (camsIter0 sh seed n) m))) = mset [0..<n]
       \<and> distinct (take n (drop (k * n) (draws sh (camsIter0 sh seed n) m)))
       \<and> set (take n (drop (k * n) (draws sh (camsIter0 sh seed n) m))) = {0..<n}"
proof -
  let ?it = "camsIter0 sh seed n"
  let ?w = "take n (drop (k * n) (draws sh ?it m))"
  have st: "epochStart n ?it" using perm by (rule camsIter0_epochStart)
  have w: "?w = it_v (advance sh ?it (k * n))"
    using epoch_window [OF perm n st m] .
  from epochs [OF perm n st, where k = k] have "epochStart n (advance sh ?it (k * n))" by simp
  then have ms: "mset ?w = mset [0..<n]" by (simp add: w epochStart_def)
  then have "distinct ?w" by (metis distinct_upt mset_eq_imp_distinct_iff)
  moreover from ms have "set ?w = {0..<n}" by (metis mset_eq_setD set_upt)
  ultimately show ?thesis using ms by simp
qed

lemma mset_rotate_eq: "mset (rotate j xs) = mset xs"
proof (induction j)
  case 0
  then show ?case by simp
next
  case (Suc j)
  have "mset (rotate1 ys) = mset ys" for ys :: "'a list" by (cases ys) simp_all
  with Suc show ?case by simp
qed

theorem camera_epochs_witness:
  "mset (take 3 (drop (1 * 3) (draws demo_shuffle (camsIter0 demo_shuffle 42 3) 7))) = mset [0..<3]
   \<and> distinct (take 3 (drop (1 * 3) (draws demo_shuffle (camsIter0 demo_shuffle 42 3) 7)))
   \<and> set (take 3 (drop (1 * 3) (draws demo_shuffle (camsIter0 demo_shuffle 42 3) 7))) = {0..<3}
   \<and> draws demo_shuffle (camsIter0 demo_shuffle 42 3) 7 = [0, 1, 2, 1, 2, 0, 0]"
proof -
  have perm: "\<And>g xs. mset (fst (demo_shuffle g xs)) = mset xs"
    by (simp add: demo_shuffle_def mset_rotate_eq)
  have "draws demo_shuffle (camsIter0 demo_shuffle 42 3) 7 = [0, 1, 2, 1, 2, 0, 0]"
    by code_simp
  with camera_epochs [of demo_shuffle 3 1 7 42, OF perm] show ?thesis by simp
qed


subsection \<open>The loss\<close>

lemma sum_list_zip_nth:
  "length xs = length ys \<Longrightarrow>
   (\<Sum>(r, g) \<leftarrow> zip xs ys. f r g) = (\<Sum>i<length ys. f (xs ! i) (ys ! i))"
  by (simp add: sum_list_sum_nth atLeast0LessThan)

lemma l1_sum:
  "length rgb = length gt \<Longrightarrow>
   l1 rgb gt = (\<Sum>i<length gt. \<bar>gt ! i - rgb ! i\<bar>) / real (length gt)"
  by (simp add: l1_def sum_list_zip_nth)

lemma Model_ctor_ssim:
  "ssim (Model_ctor a nc nd rs sd sdi re wl rae ssa dgt dst sssa sss ms) =
     \<lparr>window_size = 11, channel = 3\<rparr>"
  by (simp add: Model_ctor_def Let_def)

text \<open>
  C5. For a rendered image and a ground truth of equal shape, and the model as its
  constructor builds it, the loss is \<open>(1 - ssimWeight)\<close> times the mean absolute
  difference of the elements plus \<open>ssimWeight\<close> times one minus the structural
  similarity, computed with window size 11 and 3 channels; with \<open>ssimWeight = 0\<close> it is
  the mean absolute difference, which for two constant images is the absolute difference
  of the constants.
\<close>

theorem mainLoss_formula:
  assumes shape: "length rgb = length gt"
  shows "mainLoss ssim_eval (Model_ctor a nc nd rs sd sdi re wl rae ssa dgt dst sssa sss ms) rgb gt w =
           (1 - w) * ((\<Sum>i<length gt. \<bar>gt ! i - rgb ! i\<bar>) / real (length gt))
           + w * (1 - ssim_eval \<lparr>window_size = 11, channel = 3\<rparr> rgb gt)
       \<and> mainLoss ssim_eval (Model_ctor a nc nd rs sd sdi re wl rae ssa dgt dst sssa sss ms) rgb gt 0 =
           (\<Sum>i<length gt. \<bar>gt ! i - rgb ! i\<bar>) / real (length gt)
       \<and> (0 < n \<and> rgb = replicate n x \<and> gt = replicate n y \<longrightarrow>
            mainLoss ssim_eval (Model_ctor a nc nd rs sd sdi re wl rae ssa dgt dst sssa sss ms) rgb gt 0 = \<bar>y - x\<bar>)"
proof (intro conjI impI)
  let ?m = "Model_ctor a nc nd rs sd sdi re wl rae ssa dgt dst sssa sss ms"
  show "mainLoss ssim_eval ?m rgb gt w =
           (1 - w) * ((\<Sum>i<length gt. \<bar>gt ! i - rgb ! i\<bar>) / real (length gt))
           + w * (1 - ssim_eval \<lparr>window_size = 11, channel = 3\<rparr> rgb gt)"
    by (simp add: mainLoss_def l1_sum [OF shape] Model_ctor_ssim)
  show zero: "mainLoss ssim_eval ?m rgb gt 0 = (\<Sum>i<length gt. \<bar>gt ! i - rgb ! i\<bar>) / real (length gt)"
    by (simp add: mainLoss_def l1_sum [OF shape])
  assume c: "0 < n \<and> rgb = replicate n x \<and> gt = replicate n y"
  then have n: "0 < n" and rg: "rgb = replicate n x" "gt = replicate n y" by simp_all
  have "mainLoss ssim_eval ?m rgb gt 0 = (\<Sum>i<length gt. \<bar>gt ! i - rgb ! i\<bar>) / real (length gt)"
    by (rule zero)
  also have "\<dots> = (real n * \<bar>y - x\<bar>) / real n" by (simp add: rg)
  also have "\<dots> = \<bar>y - x\<bar>" using n by simp
  finally show "mainLoss ssim_eval ?m rgb gt 0 = \<bar>y - x\<bar>" .
qed

theorem mainLoss_formula_witness:
  "mainLoss demo_ssim_eval demo_model [0, 1 / 2] [1, 1 / 2] (1 / 5) = 41 / 70
   \<and> mainLoss demo_ssim_eval demo_model [0, 1 / 2] [1, 1 / 2] 0 = 1 / 2
   \<and> mainLoss demo_ssim_eval demo_model (replicate 2 (1 / 4)) (replicate 2 1) 0 = 3 / 4"
proof -
  have eq: "length [0, 1 / 2 :: real] = length [1, 1 / 2 :: real]" by simp
  have eq': "length (replicate 2 (1 / 4 :: real)) = length (replicate 2 (1 :: real))" by simp
  show ?thesis
    unfolding demo_model_def
    using mainLoss_formula [OF eq, of demo_ssim_eval demo_inputData 2 2 3000 3 1000 100 500 30 15000
        "0.0002" "0.01" 4000 "0.05" 30000 "1 / 5" 0]
      mainLoss_formula [OF eq', of demo_ssim_eval demo_inputData 2 2 3000 3 1000 100 500 30 15000
        "0.0002" "0.01" 4000 "0.05" 30000 0 2 "1 / 4" 1]
    by (simp add: demo_ssim_eval_def lessThan_Suc)
qed


subsection \<open>Withholding a validation camera\<close>

lemma findValIdx_None:
  "(findValIdx valImage cs i = None) = (\<forall>cam \<in> set cs. filename (filePath cam) \<noteq> valImage)"
  by (induction cs arbitrary: i) auto

lemma findValIdx_Some:
  "findValIdx valImage cs i = Some j \<Longrightarrow>
   i \<le> j \<and> j < i + length cs \<and> filename (filePath (cs ! (j - i))) = valImage
   \<and> (\<forall>k < j - i. filename (filePath (cs ! k)) \<noteq> valImage)"
proof (induction cs arbitrary: i)
  case Nil
  then show ?case by simp
next
  case (Cons cam cs)
  show ?case
  proof (cases "filename (filePath cam) = valImage")
    case True
    with Cons.prems show ?thesis by simp
  next
    case False
    with Cons.prems have "findValIdx valImage cs (Suc i) = Some j" by simp
    from Cons.IH [OF this] have ih: "Suc i \<le> j" "j < Suc i + length cs"
      "filename (filePath (cs ! (j - Suc i))) = valImage"
      "\<forall>k < j - Suc i. filename (filePath (cs ! k)) \<noteq> valImage" by simp_all
    from ih(1) have ji: "j - i = Suc (j - Suc i)" by simp
    have "\<forall>k < j - i. filename (filePath ((cam # cs) ! k)) \<noteq> valImage"
    proof (intro allI impI)
      fix k assume "k < j - i"
      then show "filename (filePath ((cam # cs) ! k)) \<noteq> valImage"
        using False ih(4) ji by (cases k) auto
    qed
    then show ?thesis using ih ji by simp
  qed
qed

lemma withhold_outside:
  "valIdx < i \<or> i + length cs \<le> valIdx \<Longrightarrow> withhold valIdx cs i = (cs, None)"
  by (induction cs arbitrary: i) auto

lemma withhold_inside:
  "i \<le> valIdx \<Longrightarrow> valIdx < i + length cs \<Longrightarrow>
   withhold valIdx cs i = (take (valIdx - i) cs @ drop (Suc (valIdx - i)) cs, Some valIdx)"
proof (induction cs arbitrary: i)
  case Nil
  then show ?case by simp
next
  case (Cons cam cs)
  show ?case
  proof (cases "i = valIdx")
    case True
    then show ?thesis by (simp add: withhold_outside)
  next
    case False
    with Cons.prems have a: "Suc i \<le> valIdx" "valIdx < Suc i + length cs" by simp_all
    from a(1) have "valIdx - i = Suc (valIdx - Suc i)" by simp
    with False Cons.IH [OF a] show ?thesis by simp
  qed
qed

lemma getCameras_withheld:
  assumes "getCameras r D True valImage = Inr (cams, valCam)"
  shows "\<exists>vi. valCam = Some vi \<and> vi < length (cameras D)
            \<and> cams = take vi (cameras D) @ drop (Suc vi) (cameras D)"
proof (cases "valImage = ''random''")
  case True
  with assms have ne: "length (cameras D) \<noteq> 0"
    and w: "withhold (r mod length (cameras D)) (cameras D) 0 = (cams, valCam)"
    by (auto simp: getCameras_def split: if_splits)
  from ne have lt: "r mod length (cameras D) < 0 + length (cameras D)" by simp
  from withhold_inside [OF _ lt] w lt show ?thesis by auto
next
  case False
  with assms obtain vi where f: "findValIdx valImage (cameras D) 0 = Some vi"
    and w: "withhold vi (cameras D) 0 = (cams, valCam)"
    by (auto simp: getCameras_def split: option.splits)
  from findValIdx_Some [OF f] have lt: "vi < 0 + length (cameras D)" by simp
  from withhold_inside [OF _ lt] w lt show ?thesis by auto
qed

lemma getCameras_missing:
  assumes "valImage \<noteq> ''random''"
    and "\<forall>cam \<in> set (cameras D). filename (filePath cam) \<noteq> valImage"
  shows "getCameras r D True valImage =
           Inl (runtime_error (valImage @ '' not in the list of cameras''))"
  using assms by (simp add: getCameras_def findValIdx_None [THEN iffD2])

lemma getCameras_no_validation: "getCameras r D False valImage = Inr (cameras D, None)"
  by (simp add: getCameras_def)

subsection \<open>The concrete run\<close>

lemma demo_load: "loadInput demo_loaders demo_cmd = Inr demo_inputData"
  by (simp add: loadInput_def inputDataFromX_def inputDataFromNerfStudio_def demo_loaders_def
      demo_cmd_def pathAppend_def demo_transforms_def assignIdx_def main_downScaleFactor_def
      filename_def demo_inputData_def demo_camA_def demo_camB_def upt_rec)

lemma demo_getCameras:
  "getCameras 71876166 demo_inputData True ''b.png'' = Inr ([demo_camA], Some 1)"
  by (simp add: getCameras_def demo_inputData_def demo_camA_def demo_camB_def filename_def)

lemma demo_run_model_schedule:
  "getDownscaleFactor demo_run_model 1 = 4"
  "getDownscaleFactor demo_run_model 2 = 4"
  "\<not> refineGate demo_run_model 1"
  "\<not> refineGate demo_run_model 2"
  by (simp_all add: demo_run_model_def main_model_def Model_ctor_def Let_def demo_cmd_def
      getDownscaleFactor_def refineGate_def)

lemma demo_iter:
  "camsIter0 demo_shuffle 42 (Suc 0) = \<lparr>it_v = [0], it_i = 0, it_engine = 43\<rparr>"
  "iter_next demo_shuffle \<lparr>it_v = [0], it_i = 0, it_engine = g\<rparr> =
     Inr (0, \<lparr>it_v = [0], it_i = 0, it_engine = Suc g\<rparr>)"
  by (simp_all add: camsIter0_def newIterator_def shuffleV_def demo_shuffle_def iter_next_def Let_def)

lemma demo_step1:
  "trainStep demo_pipeline demo_cmd demo_run_model 1 (demo_state 43 0 [] []) =
     Inr (demo_state 44 1 [TrainStep 1 0 NaN] [NaN])"
  by (simp add: trainStep_def renderPhase_def updatePhase_def demo_state_def demo_iter demo_run_model_schedule demo_pipeline_def
      demo_cmd_def getImage_def demo_camA_def demo_resize_def afterTrain_def Let_def)

lemma demo_step2:
  "trainStep demo_pipeline demo_cmd demo_run_model 2 (demo_state 44 1 [TrainStep 1 0 NaN] [NaN]) =
     Inr (demo_state 45 2 [TrainStep 1 0 NaN, TrainStep 2 0 (Finite (1 / 4))] [NaN, Finite (1 / 4)])"
  by (simp add: trainStep_def renderPhase_def updatePhase_def demo_state_def demo_iter demo_run_model_schedule demo_pipeline_def
      demo_cmd_def getImage_def demo_camA_def demo_resize_def afterTrain_def Let_def)

lemma demo_steps: "main_steps demo_cmd = [1, 2]"
  by (simp add: main_steps_def demo_cmd_def to_size_t_def upt_rec)

lemma demo_validation:
  "validation demo_pipeline demo_cmd demo_run_model demo_camB 2 =
     Inr (Validate ''data/images/b.png'' (Finite (1 / 4)))"
  by (simp add: validation_def demo_pipeline_def demo_cmd_def getImage_def demo_camB_def
      demo_resize_def getDownscaleFactor_def demo_run_model_def main_model_def Model_ctor_def Let_def)

lemma makeValRenderDir_empty: "opt_val_render c = [] \<Longrightarrow> makeValRenderDir L c = None"
  by (simp add: makeValRenderDir_def)

lemma main_enters_try:
  "\<not> opt_help c \<Longrightarrow> opt_input_given c \<Longrightarrow> makeValRenderDir L c = None \<Longrightarrow>
   main L P c = main_try L P c"
  by (simp add: main_def)

lemma demo_cmd_enters_try:
  "\<not> opt_help demo_cmd" "opt_input_given demo_cmd" "makeValRenderDir L demo_cmd = None"
  by (simp_all add: demo_cmd_def makeValRenderDir_def)

lemma main_try_returns:
  assumes "loadInput L c = Inr D"
    and "getCameras (std_rand42 P) D (main_validate c) (opt_val_image c) = Inr (cams, valCam)"
    and "trainLoop P c (main_model c D (length cams)) (main_steps c) (initialState P D cams) = (None, s)"
    and "savePlySplat P (ts_tensors s) (opt_output c) = None"
  shows "main_try L P c =
     (case valCam of
        None \<Rightarrow> (ts_events s, Returned)
      | Some vi \<Rightarrow>
          (case validation P c (main_model c D (length cams)) (cameras D ! vi) (ts_tensors s) of
             Inl e \<Rightarrow> (ts_events s, handler e)
           | Inr ev \<Rightarrow> (ts_events s @ [ev], Returned)))"
  by (simp add: main_try_def assms Let_def)

lemma main_try_fails_in_loop:
  assumes "loadInput L c = Inr D"
    and "getCameras (std_rand42 P) D (main_validate c) (opt_val_image c) = Inr (cams, valCam)"
    and "trainLoop P c (main_model c D (length cams)) (main_steps c) (initialState P D cams) = (Some e, s)"
  shows "main_try L P c = (ts_events s, handler e)"
  by (simp add: main_try_def assms Let_def)

lemma demo_run:
  "main demo_loaders demo_pipeline demo_cmd =
     ([TrainStep 1 0 NaN, TrainStep 2 0 (Finite (1 / 4)),
       Validate ''data/images/b.png'' (Finite (1 / 4))], Returned)"
proof -
  have g: "getCameras (std_rand42 demo_pipeline) demo_inputData (main_validate demo_cmd)
             (opt_val_image demo_cmd) = Inr ([demo_camA], Some 1)"
    using demo_getCameras by (simp add: main_validate_def demo_cmd_def demo_pipeline_def)
  have m: "main_model demo_cmd demo_inputData (length [demo_camA]) = demo_run_model"
    by (simp add: demo_run_model_def)
  have s0: "initialState demo_pipeline demo_inputData [demo_camA] = demo_state 43 0 [] []"
    by (simp add: initialState_def demo_state_def demo_pipeline_def demo_iter demo_inputData_def)
  have loop: "trainLoop demo_pipeline demo_cmd demo_run_model [1, 2] (demo_state 43 0 [] []) =
      (None, demo_state 45 2 [TrainStep 1 0 NaN, TrainStep 2 0 (Finite (1 / 4))] [NaN, Finite (1 / 4)])"
    by (simp only: trainLoop.simps demo_step1 demo_step2 sum.case)
  have save: "savePlySplat demo_pipeline p n = None" for p n
    by (simp add: demo_pipeline_def)
  have camB: "cameras demo_inputData ! 1 = demo_camB" by (simp add: demo_inputData_def)
  have st: "ts_tensors (demo_state g p evs ls) = p" "ts_events (demo_state g p evs ls) = evs"
    for g p evs ls by (simp_all add: demo_state_def)
  have "main_try demo_loaders demo_pipeline demo_cmd =
      ([TrainStep 1 0 NaN, TrainStep 2 0 (Finite (1 / 4)),
        Validate ''data/images/b.png'' (Finite (1 / 4))], Returned)"
    by (simp only: main_try_returns [OF demo_load g, unfolded m s0 demo_steps, OF loop save]
        option.case camB st demo_validation sum.case append.simps)
  then show ?thesis by (simp only: main_enters_try [OF demo_cmd_enters_try])
qed

text \<open>
  The same command line with \<open>--val-render /dev/null/x\<close>, a directory that cannot be
  created: the exception is thrown before the \<open>try\<close> block, and the run ends in
  \<open>std::terminate\<close> without having loaded anything. With \<open>--help\<close> the run prints the
  usage and returns.
\<close>

lemma val_render_uncreatable:
  "main demo_loaders P (demo_cmd\<lparr>opt_val_render_given := True, opt_val_render := ''/dev/null/x''\<rparr>) =
     ([], Terminated)"
  by (simp add: main_def makeValRenderDir_def demo_cmd_def demo_loaders_def)

lemma help_returns: "main L P (c\<lparr>opt_help := True\<rparr>) = ([], Returned)"
  by (simp add: main_def)

subsection \<open>Fatal errors while loading\<close>

text \<open>
  C7. If validation is requested with a named image (not \<open>random\<close>) and no camera of
  the input data has that file name, \<open>getCameras\<close> throws a runtime error whose text
  names the image; and a run that got as far as loading its input (it was not asked for
  the usage, the directory of the validation renders, if one is named, exists or was
  created, and the input loaded) aborts with that text, through the handler and
  \<open>exit(1)\<close>, without having recorded a single training step.
\<close>

theorem missing_validation_image:
  assumes val: "main_validate c" and named: "opt_val_image c \<noteq> ''random''"
    and missing: "\<forall>cam \<in> set (cameras D). filename (filePath cam) \<noteq> opt_val_image c"
  shows "getCameras r D (main_validate c) (opt_val_image c) =
           Inl (runtime_error (opt_val_image c @ '' not in the list of cameras''))
       \<and> (\<not> opt_help c \<and> opt_input_given c \<and> makeValRenderDir L c = None
            \<and> loadInput L c = Inr D \<longrightarrow>
            main L P c = ([], Exit1 (opt_val_image c @ '' not in the list of cameras'')))"
proof -
  have g: "getCameras r D (main_validate c) (opt_val_image c) =
           Inl (runtime_error (opt_val_image c @ '' not in the list of cameras''))" for r
    using val getCameras_missing [OF named missing] by simp
  then show ?thesis by (simp add: main_def main_try_def)
qed

theorem missing_validation_image_witness:
  "getCameras 71876166 demo_inputData True ''c.png'' =
     Inl (runtime_error ''c.png not in the list of cameras'')
   \<and> main demo_loaders demo_pipeline (demo_cmd\<lparr>opt_val_image := ''c.png''\<rparr>) =
       ([], Exit1 ''c.png not in the list of cameras'')"
proof -
  let ?c = "demo_cmd\<lparr>opt_val_image := ''c.png''\<rparr>"
  have val: "main_validate ?c" by (simp add: main_validate_def demo_cmd_def)
  have named: "opt_val_image ?c \<noteq> ''random''" by simp
  have missing: "\<forall>cam \<in> set (cameras demo_inputData). filename (filePath cam) \<noteq> opt_val_image ?c"
    by (simp add: demo_inputData_def demo_camA_def demo_camB_def filename_def)
  have load: "loadInput demo_loaders ?c = Inr demo_inputData"
    using demo_load by (simp add: loadInput_def main_downScaleFactor_def cong: sum.case_cong)
  have pre: "\<not> opt_help ?c" "opt_input_given ?c" "makeValRenderDir demo_loaders ?c = None"
    by (simp_all add: demo_cmd_def makeValRenderDir_def)
  from missing_validation_image [OF val named missing, of 71876166 demo_loaders demo_pipeline]
    val load pre
  show ?thesis by simp
qed

text \<open>
  C8. If the project root holds neither \<open>transforms.json\<close> nor \<open>sparse\<close> nor
  \<open>cameras.bin\<close>, and likewise if it holds a \<open>transforms.json\<close> that parses to a manifest
  with an empty \<open>ply_file_path\<close> while no mesh file is given, loading the input throws a
  runtime error; and a run that got as far as loading its input (it was not asked for the
  usage, and the directory of the validation renders, if one is named, exists or was
  created) aborts with the text of that error, through the handler and \<open>exit(1)\<close>,
  without having recorded a single training step: nothing is recovered.
\<close>

theorem malformed_project:
  "(fs_exists L (pathAppend (opt_input c) ''transforms.json'') = Inr False
      \<and> fs_exists L (pathAppend (opt_input c) ''sparse'') = Inr False
      \<and> fs_exists L (pathAppend (opt_input c) ''cameras.bin'') = Inr False \<longrightarrow>
      inputDataFromX L (opt_input c) (opt_mesh_file c) =
        Inl (runtime_error
          ''Invalid project folder (must be either a colmap or nerfstudio project folder)'')
      \<and> loadInput L c =
        Inl (runtime_error
          ''Invalid project folder (must be either a colmap or nerfstudio project folder)'')
      \<and> (\<not> opt_help c \<and> opt_input_given c \<and> makeValRenderDir L c = None \<longrightarrow>
           main L P c =
             ([], Exit1 ''Invalid project folder (must be either a colmap or nerfstudio project folder)'')))
   \<and> (fs_exists L (pathAppend (opt_input c) ''transforms.json'') = Inr True
      \<and> readTransforms L (pathAppend (opt_input c) ''transforms.json'') = Inr t
      \<and> plyFilePath t = [] \<and> opt_mesh_file c = [] \<longrightarrow>
      inputDataFromX L (opt_input c) (opt_mesh_file c) =
        Inl (runtime_error ''ply_file_path is empty (and no mesh input)'')
      \<and> loadInput L c = Inl (runtime_error ''ply_file_path is empty (and no mesh input)'')
      \<and> (\<not> opt_help c \<and> opt_input_given c \<and> makeValRenderDir L c = None \<longrightarrow>
           main L P c = ([], Exit1 ''ply_file_path is empty (and no mesh input)'')))"
  by (simp add: main_def main_try_def loadInput_def inputDataFromX_def inputDataFromNerfStudio_def)

theorem malformed_project_witness:
  "inputDataFromX demo_loaders ''nowhere'' [] =
     Inl (runtime_error
       ''Invalid project folder (must be either a colmap or nerfstudio project folder)'')
   \<and> main demo_loaders demo_pipeline (demo_cmd\<lparr>opt_input := ''nowhere''\<rparr>) =
       ([], Exit1 ''Invalid project folder (must be either a colmap or nerfstudio project folder)'')
   \<and> inputDataFromX noply_loaders ''data'' [] =
       Inl (runtime_error ''ply_file_path is empty (and no mesh input)'')
   \<and> main noply_loaders demo_pipeline demo_cmd =
       ([], Exit1 ''ply_file_path is empty (and no mesh input)'')"
proof -
  let ?c = "demo_cmd\<lparr>opt_input := ''nowhere''\<rparr>"
  have c: "opt_input ?c = ''nowhere''" "opt_mesh_file ?c = []"
    "opt_input demo_cmd = ''data''" "opt_mesh_file demo_cmd = []"
    by (simp_all add: demo_cmd_def)
  have pre: "\<not> opt_help ?c" "opt_input_given ?c" "makeValRenderDir demo_loaders ?c = None"
    "\<not> opt_help demo_cmd" "opt_input_given demo_cmd" "makeValRenderDir noply_loaders demo_cmd = None"
    by (simp_all add: demo_cmd_def makeValRenderDir_def)
  have a: "fs_exists demo_loaders (pathAppend ''nowhere'' ''transforms.json'') = Inr False"
    "fs_exists demo_loaders (pathAppend ''nowhere'' ''sparse'') = Inr False"
    "fs_exists demo_loaders (pathAppend ''nowhere'' ''cameras.bin'') = Inr False"
    by (simp_all add: demo_loaders_def pathAppend_def)
  have b: "fs_exists noply_loaders (pathAppend ''data'' ''transforms.json'') = Inr True"
    "readTransforms noply_loaders (pathAppend ''data'' ''transforms.json'') =
       Inr (demo_transforms\<lparr>plyFilePath := []\<rparr>)"
    "plyFilePath (demo_transforms\<lparr>plyFilePath := []\<rparr>) = []"
    by (simp_all add: noply_loaders_def demo_loaders_def pathAppend_def)
  show ?thesis
    using malformed_project [where L = demo_loaders and c = ?c and P = demo_pipeline] a
      malformed_project [where L = noply_loaders and c = demo_cmd and P = demo_pipeline
        and t = "demo_transforms\<lparr>plyFilePath := []\<rparr>"] b pre
    by (simp only: c) simp
qed

subsection \<open>Training steps and their events\<close>

text \<open>
  The loop takes one selection from the iterator per step: after a loop over some steps
  that did not fail, the iterator is the one it started with, advanced by as many
  selections, and each of these selections was an index into \<open>cams\<close>.
\<close>

lemma trainStep_camsIter:
  assumes "trainStep P c m step s = Inr s'"
  shows "\<exists>ci. iter_next (std_shuffle P) (ts_camsIter s) = Inr (ci, ts_camsIter s')
            \<and> ci < length (ts_cams s)"
proof -
  from assms obtain r l where r: "renderPhase P c m step s = Inr r"
    and u: "updatePhase P m step s r l = Inr s'"
    by (auto simp: trainStep_def split: sum.splits)
  from u have "ts_camsIter s' = r_camsIter r"
    by (auto simp: updatePhase_def split: sum.splits prod.splits if_splits)
  moreover from r obtain ci where
    "iter_next (std_shuffle P) (ts_camsIter s) = Inr (ci, r_camsIter r)" "ci < length (ts_cams s)"
    by (auto simp: renderPhase_def split: sum.splits prod.splits if_splits option.splits)
  ultimately show ?thesis by auto
qed

lemma trainLoop_camsIter:
  "trainLoop P c m steps s = (None, s') \<Longrightarrow>
   ts_camsIter s' = advance (std_shuffle P) (ts_camsIter s) (length steps)
   \<and> length (draws (std_shuffle P) (ts_camsIter s) (length steps)) = length steps"
proof (induction steps arbitrary: s)
  case Nil
  then show ?case by simp
next
  case (Cons step steps)
  then obtain s1 where s1: "trainStep P c m step s = Inr s1"
    and rest: "trainLoop P c m steps s1 = (None, s')"
    by (auto split: sum.splits)
  from trainStep_camsIter [OF s1] obtain ci where
    "iter_next (std_shuffle P) (ts_camsIter s) = Inr (ci, ts_camsIter s1)" by blast
  with Cons.IH [OF rest] show ?case by simp
qed

lemma trainStep_events:
  "trainStep P c m step s = Inr s' \<Longrightarrow> \<exists>i l. ts_events s' = ts_events s @ [TrainStep step i l]"
  by (auto simp: trainStep_def updatePhase_def split: sum.splits prod.splits if_splits)

lemma trainLoop_events:
  "trainLoop P c m steps s = (None, s') \<Longrightarrow>
   \<exists>tr. ts_events s' = ts_events s @ tr \<and> map stepOf tr = map Some steps"
proof (induction steps arbitrary: s)
  case Nil
  then show ?case by simp
next
  case (Cons step steps)
  then obtain s1 where s1: "trainStep P c m step s = Inr s1"
    and rest: "trainLoop P c m steps s1 = (None, s')"
    by (auto split: sum.splits)
  from trainStep_events [OF s1] obtain i l where
    e1: "ts_events s1 = ts_events s @ [TrainStep step i l]" by blast
  from Cons.IH [OF rest] obtain tr where
    tr: "ts_events s' = ts_events s1 @ tr" "map stepOf tr = map Some steps" by blast
  have "ts_events s' = ts_events s @ (TrainStep step i l # tr)" by (simp add: tr e1)
  moreover have "map stepOf (TrainStep step i l # tr) = map Some (step # steps)"
    by (simp add: tr)
  ultimately show ?case by blast
qed

lemma validation_event:
  "validation P c m cam p = Inr ev \<Longrightarrow> \<exists>l. ev = Validate (filePath cam) l"
  by (auto simp: validation_def split: sum.splits prod.splits)

lemma main_try_returned:
  assumes load: "loadInput L c = Inr D" and ret: "main_try L P c = (evs, Returned)"
  shows "\<exists>cams valCam tr.
           getCameras (std_rand42 P) D (main_validate c) (opt_val_image c) = Inr (cams, valCam)
           \<and> map stepOf tr = map Some (main_steps c)
           \<and> (case valCam of
                 None \<Rightarrow> evs = tr
               | Some vi \<Rightarrow> \<exists>l. evs = tr @ [Validate (filePath (cameras D ! vi)) l])"
proof -
  have nr: "handler e \<noteq> Returned" for e by (cases e) simp_all
  from ret load obtain cams valCam where
    g: "getCameras (std_rand42 P) D (main_validate c) (opt_val_image c) = Inr (cams, valCam)"
    by (auto simp: main_try_def nr split: sum.splits)
  let ?m = "main_model c D (length cams)"
  obtain e s where l: "trainLoop P c ?m (main_steps c) (initialState P D cams) = (e, s)"
    by fastforce
  from ret load g l have e: "e = None"
    by (cases e) (simp_all add: main_try_def Let_def nr)
  from ret load g l e have sv: "savePlySplat P (ts_tensors s) (opt_output c) = None"
    by (cases "savePlySplat P (ts_tensors s) (opt_output c)") (simp_all add: main_try_def Let_def nr)
  from trainLoop_events [OF l [unfolded e]] obtain tr where
    tr: "ts_events s = tr" "map stepOf tr = map Some (main_steps c)"
    by (auto simp: initialState_def)
  have "case valCam of
          None \<Rightarrow> evs = tr
        | Some vi \<Rightarrow> \<exists>l. evs = tr @ [Validate (filePath (cameras D ! vi)) l]"
  proof (cases valCam)
    case None
    with ret main_try_returns [OF load g l [unfolded e] sv] tr show ?thesis by simp
  next
    case (Some vi)
    with ret main_try_returns [OF load g l [unfolded e] sv] obtain ev where
      v: "validation P c ?m (cameras D ! vi) (ts_tensors s) = Inr ev" and ev: "evs = tr @ [ev]"
      by (auto simp: tr nr split: sum.splits)
    from validation_event [OF v] ev Some show ?thesis by auto
  qed
  with g tr show ?thesis by blast
qed

lemma returned_run:
  assumes run: "\<not> opt_help c" "opt_input_given c"
    and load: "loadInput L c = Inr D" and ret: "main L P c = (evs, Returned)"
  shows "\<exists>cams valCam tr.
           getCameras (std_rand42 P) D (main_validate c) (opt_val_image c) = Inr (cams, valCam)
           \<and> map stepOf tr = map Some (main_steps c)
           \<and> (case valCam of
                 None \<Rightarrow> evs = tr
               | Some vi \<Rightarrow> \<exists>l. evs = tr @ [Validate (filePath (cameras D ! vi)) l])"
proof -
  have nr: "uncaught e \<noteq> Returned" for e by (cases e) simp_all
  from run ret have "main_try L P c = (evs, Returned)"
    by (cases "makeValRenderDir L c") (simp_all add: main_def nr)
  with load show ?thesis by (rule main_try_returned)
qed

text \<open>
  The numbering of the cameras and the size of \<open>lossesByCamera\<close>. \<open>main\<close> numbers all
  cameras before one is withheld, and nothing renumbers them. So when the withheld camera
  is not the last one, the last training camera carries the number \<open>cams.size()\<close>, one
  past the last entry of \<open>lossesByCamera\<close>; and a step that selects a camera whose number
  is out of range never completes.
\<close>

lemma loadImages_idx:
  "loadImages L f cs = Inr cs' \<Longrightarrow> map idx cs' = map idx cs"
proof (induction cs arbitrary: cs')
  case Nil
  then show ?case by simp
next
  case (Cons cam cs)
  then show ?case by (auto split: sum.splits)
qed

lemma assignIdx_idx: "map idx (assignIdx cs) = [0..<length cs]"
proof -
  have "map idx (assignIdx cs) = map fst (zip [0..<length cs] cs)"
    by (simp add: assignIdx_def split_def comp_def)
  then show ?thesis by simp
qed

lemma loadInput_idx:
  assumes "loadInput L c = Inr D"
  shows "map idx (cameras D) = [0..<length (cameras D)]"
proof -
  from assms obtain D0 cs where
    l: "loadImages L (main_downScaleFactor c) (assignIdx (cameras D0)) = Inr cs"
    and D: "D = D0\<lparr>cameras := cs\<rparr>"
    by (auto simp: loadInput_def split: sum.splits)
  from loadImages_idx [OF l] have "map idx cs = [0..<length (cameras D0)]"
    by (simp add: assignIdx_idx)
  moreover from this have "length cs = length (cameras D0)"
    by (metis length_map length_upt diff_zero)
  ultimately show ?thesis by (simp add: D)
qed

lemma withheld_not_last:
  assumes num: "map idx (cameras D) = [0..<length (cameras D)]"
    and g: "getCameras r D True valImage = Inr (cams, Some vi)"
    and notlast: "Suc vi < length (cameras D)"
  shows "cams \<noteq> [] \<and> idx (last cams) = length cams"
proof -
  let ?cs = "cameras D"
  from getCameras_withheld [OF g] have cams: "cams = take vi ?cs @ drop (Suc vi) ?cs" by simp
  from notlast have ne: "drop (Suc vi) ?cs \<noteq> []" by simp
  from notlast have cne: "?cs \<noteq> []" by auto
  have "last cams = last ?cs" using ne by (simp add: cams)
  moreover have "idx (last ?cs) = length ?cs - 1"
  proof -
    have "idx (last ?cs) = map idx ?cs ! (length ?cs - 1)"
      using cne by (simp add: last_conv_nth)
    also have "\<dots> = length ?cs - 1" using cne by (simp add: num)
    finally show ?thesis .
  qed
  moreover have "length cams = length ?cs - 1" using notlast by (simp add: cams)
  ultimately show ?thesis using ne by (simp add: cams)
qed

lemma updatePhase_out_of_range:
  assumes "length (ts_lossesByCamera s) \<le> idx (r_cam r)"
  shows "\<exists>e. updatePhase P m step s r steploss = Inl e"
  using assms by (simp add: updatePhase_def split: sum.splits)


lemma getImage_idx: "getImage rs cam d = Inr (t, cam') \<Longrightarrow> idx cam' = idx cam"
  by (auto simp: getImage_def split: if_splits option.splits sum.splits)

lemma dumpCams_idx:
  "dumpCams P m dir step i cs p = Inr (cs', p') \<Longrightarrow> map idx cs' = map idx cs"
proof (induction cs arbitrary: i p cs' p')
  case Nil
  then show ?case by simp
next
  case (Cons cam cs)
  then show ?case
    by (auto split: sum.splits prod.splits option.splits dest: getImage_idx)
qed

lemma renderPhase_selected:
  assumes nx: "iter_next (std_shuffle P) (ts_camsIter s) = Inr (ci, it')"
    and r: "renderPhase P c m step s = Inr r"
  shows "idx (r_cam r) = idx (ts_cams s ! ci)"
proof -
  from r nx have ci: "ci < length (ts_cams s)"
    by (auto simp: renderPhase_def split: if_splits)
  from r nx ci obtain cams1 p1 gt where
    "map idx cams1 = map idx (ts_cams s)"
    and g: "getImage (cv_resize P) (cams1 ! ci) (getDownscaleFactor m (int step)) = Inr (gt, r_cam r)"
    by (auto simp: renderPhase_def split: if_splits sum.splits prod.splits option.splits
        dest: dumpCams_idx)
  then have "idx (cams1 ! ci) = idx (ts_cams s ! ci)"
    using ci by (metis length_map nth_map)
  with getImage_idx [OF g] show ?thesis by simp
qed

lemma trainStep_out_of_range:
  assumes nx: "iter_next (std_shuffle P) (ts_camsIter s) = Inr (ci, it')"
    and out: "length (ts_lossesByCamera s) \<le> idx (ts_cams s ! ci)"
  shows "\<exists>e. trainStep P c m step s = Inl e"
proof (cases "renderPhase P c m step s")
  case (Inl e)
  then show ?thesis by (simp add: trainStep_def)
next
  case (Inr r)
  from renderPhase_selected [OF nx Inr] out
  have "length (ts_lossesByCamera s) \<le> idx (r_cam r)" by simp
  from updatePhase_out_of_range [OF this] Inr show ?thesis
    by (auto simp: trainStep_def split: sum.splits)
qed

lemma early_load: "loadInput demo_loaders early_cmd = Inr demo_inputData"
  using demo_load
  by (simp add: early_cmd_def loadInput_def main_downScaleFactor_def cong: sum.case_cong)

text \<open>
  C6, at an input where the code does otherwise. Of the two cameras \<open>a.png\<close> (number 0)
  and \<open>b.png\<close> (number 1), \<open>a.png\<close> is withheld. \<open>getCameras\<close> returns the list without
  it, as the claim says; but the remaining camera keeps its number 1, while
  \<open>lossesByCamera\<close> has one entry per training camera, that is one. The first training
  step subscripts it out of range: the run is undefined from there, and neither the
  training steps nor the validation are recorded.
\<close>

theorem withheld_camera_out_of_range:
  "getCameras (std_rand42 demo_pipeline) demo_inputData (main_validate early_cmd)
     (opt_val_image early_cmd) = Inr ([demo_camB], Some 0)
   \<and> idx demo_camB = 1
   \<and> length (ts_lossesByCamera (initialState demo_pipeline demo_inputData [demo_camB])) = 1
   \<and> trainStep demo_pipeline early_cmd (main_model early_cmd demo_inputData 1) 1
        (initialState demo_pipeline demo_inputData [demo_camB]) = Inl undefined_behaviour
   \<and> main demo_loaders demo_pipeline early_cmd = ([], Undefined)"
proof -
  let ?m = "main_model early_cmd demo_inputData 1"
  let ?s = "initialState demo_pipeline demo_inputData [demo_camB]"
  have g: "getCameras (std_rand42 demo_pipeline) demo_inputData (main_validate early_cmd)
     (opt_val_image early_cmd) = Inr ([demo_camB], Some 0)"
    by (simp add: getCameras_def demo_inputData_def demo_camA_def demo_camB_def filename_def
        early_cmd_def demo_cmd_def main_validate_def)
  have i: "idx demo_camB = 1" by (simp add: demo_camB_def)
  have n: "length (ts_lossesByCamera ?s) = 1" by (simp add: initialState_def)
  have f: "getDownscaleFactor (main_model early_cmd demo_inputData (Suc 0)) 1 = 4"
    by (simp add: main_model_def Model_ctor_def Let_def early_cmd_def demo_cmd_def
        getDownscaleFactor_def)
  have c: "opt_val_render early_cmd = []" "opt_save_every early_cmd = - 1"
    by (simp_all add: early_cmd_def demo_cmd_def)
  have st: "trainStep demo_pipeline early_cmd ?m 1 ?s = Inl undefined_behaviour"
    by (simp add: trainStep_def renderPhase_def updatePhase_def initialState_def demo_iter f c
        demo_pipeline_def getImage_def demo_camB_def demo_resize_def Let_def)
  have steps: "main_steps early_cmd = [1]"
    by (simp add: main_steps_def early_cmd_def to_size_t_def)
  have loop: "trainLoop demo_pipeline early_cmd ?m (main_steps early_cmd) ?s =
      (Some undefined_behaviour, ?s)"
    by (simp only: steps trainLoop.simps st sum.case)
  have m: "main_model early_cmd demo_inputData (length [demo_camB]) = ?m" by simp
  have pre: "\<not> opt_help early_cmd" "opt_input_given early_cmd"
    "makeValRenderDir demo_loaders early_cmd = None"
    by (simp_all add: early_cmd_def demo_cmd_def makeValRenderDir_def)
  have "main_try demo_loaders demo_pipeline early_cmd = (ts_events ?s, handler undefined_behaviour)"
    by (rule main_try_fails_in_loop [OF early_load g, unfolded m, OF loop])
  then have "main demo_loaders demo_pipeline early_cmd = (ts_events ?s, handler undefined_behaviour)"
    by (simp only: main_enters_try [OF pre])
  then have "main demo_loaders demo_pipeline early_cmd = ([], Undefined)"
    by (simp add: initialState_def)
  with g i n st show ?thesis by (intro conjI)
qed

subsection \<open>The loss value and the course of a run\<close>

lemma withLoss_fields:
  "std_rand42 (withLoss x P) = std_rand42 P"
  "std_shuffle (withLoss x P) = std_shuffle P"
  "engine_seed (withLoss x P) = engine_seed P"
  "cv_resize (withLoss x P) = cv_resize P"
  "initTensors (withLoss x P) = initTensors P"
  "optimizersZeroGrad (withLoss x P) = optimizersZeroGrad P"
  "forward (withLoss x P) = forward P"
  "backward (withLoss x P) = backward P"
  "optimizersStep (withLoss x P) = optimizersStep P"
  "schedulersStep (withLoss x P) = schedulersStep P"
  "updateStats (withLoss x P) = updateStats P"
  "densify (withLoss x P) = densify P"
  "savePlySplat (withLoss x P) = savePlySplat P"
  "saveCheckpoint (withLoss x P) = saveCheckpoint P"
  "writeValRender (withLoss x P) = writeValRender P"
  "mainLoss_item (withLoss x P) p rgb gt w =
     (case mainLoss_item P p rgb gt w of Inl e \<Rightarrow> Inl e | Inr l \<Rightarrow> Inr x)"
  by (simp_all add: withLoss_def)

lemma dumpCams_withLoss:
  "dumpCams (withLoss x P) m dir step i cs p = dumpCams P m dir step i cs p"
  by (induction cs arbitrary: i p)
    (simp_all add: withLoss_fields cong: sum.case_cong option.case_cong prod.case_cong)

lemma afterTrain_withLoss: "afterTrain (withLoss x P) m step np = afterTrain P m step np"
  by (simp add: afterTrain_def withLoss_fields Let_def)

lemma renderPhase_withLoss:
  "renderPhase (withLoss x P) c m step s = renderPhase P c m step s"
  by (simp add: renderPhase_def withLoss_fields dumpCams_withLoss
      cong: sum.case_cong option.case_cong prod.case_cong if_cong)

lemma renderPhase_sameButLosses:
  "sameButLosses x s' s \<Longrightarrow> renderPhase P c m step s' = renderPhase P c m step s"
  by (simp add: renderPhase_def sameButLosses_def
      cong: sum.case_cong option.case_cong prod.case_cong if_cong)

lemma updatePhase_withLoss:
  assumes "sameButLosses x s' s"
  shows "rel_sum (=) (sameButLosses x)
           (updatePhase (withLoss x P) m step s' r x) (updatePhase P m step s r l)"
  using assms
  by (auto simp: updatePhase_def sameButLosses_def withLoss_fields afterTrain_withLoss
      split: sum.splits prod.splits)

lemma trainStep_withLoss:
  assumes "sameButLosses x s' s"
  shows "rel_sum (=) (sameButLosses x) (trainStep (withLoss x P) c m step s') (trainStep P c m step s)"
proof (cases "renderPhase P c m step s")
  case (Inl e)
  then show ?thesis
    by (simp add: trainStep_def renderPhase_withLoss renderPhase_sameButLosses [OF assms])
next
  case (Inr r)
  show ?thesis
  proof (cases "mainLoss_item P (r_tensors r) (r_rgb r) (r_gt r) (opt_ssim_weight c)")
    case (Inl e)
    with Inr show ?thesis
      by (simp add: trainStep_def renderPhase_withLoss renderPhase_sameButLosses [OF assms]
          withLoss_fields)
  next
    case (Inr l)
    with \<open>renderPhase P c m step s = Inr r\<close> updatePhase_withLoss [OF assms, of P m step r l]
    show ?thesis
      by (simp add: trainStep_def renderPhase_withLoss renderPhase_sameButLosses [OF assms]
          withLoss_fields)
  qed
qed

lemma rel_sum_eq_cases:
  assumes "rel_sum (=) R a b"
  shows "(\<exists>e. a = Inl e \<and> b = Inl e) \<or> (\<exists>u v. a = Inr u \<and> b = Inr v \<and> R u v)"
  using assms by (cases a; cases b) simp_all

lemma trainLoop_withLoss:
  assumes "sameButLosses x s' s"
  shows "rel_prod (=) (sameButLosses x)
           (trainLoop (withLoss x P) c m steps s') (trainLoop P c m steps s)"
  using assms
proof (induction steps arbitrary: s' s)
  case Nil
  then show ?case by simp
next
  case (Cons step steps)
  from rel_sum_eq_cases [OF trainStep_withLoss [OF Cons.prems, of P c m step]]
  show ?case
  proof (elim disjE exE conjE)
    fix e
    assume "trainStep (withLoss x P) c m step s' = Inl e" "trainStep P c m step s = Inl e"
    with Cons.prems show ?thesis by simp
  next
    fix t' t
    assume "trainStep (withLoss x P) c m step s' = Inr t'" "trainStep P c m step s = Inr t"
      "sameButLosses x t' t"
    with Cons.IH [of t' t] show ?thesis by simp
  qed
qed

lemma validation_withLoss:
  "rel_sum (=) (\<lambda>ev' ev. ev' = setLoss x ev)
     (validation (withLoss x P) c m cam p) (validation P c m cam p)"
  by (auto simp: validation_def withLoss_fields split: sum.splits prod.splits)

lemma initialState_withLoss:
  "sameButLosses x (initialState (withLoss x P) D cams) (initialState P D cams)"
  by (simp add: sameButLosses_def initialState_def withLoss_fields)

lemma main_try_withLoss:
  "snd (main_try L (withLoss x P) c) = snd (main_try L P c)
   \<and> fst (main_try L (withLoss x P) c) = map (setLoss x) (fst (main_try L P c))"
proof (cases "loadInput L c")
  case (Inl e)
  then show ?thesis by (simp add: main_try_def)
next
  case load: (Inr D)
  show ?thesis
  proof (cases "getCameras (std_rand42 P) D (main_validate c) (opt_val_image c)")
    case (Inl e)
    with load show ?thesis by (simp add: main_try_def withLoss_fields)
  next
    case (Inr cv)
    obtain cams valCam where cv: "cv = (cams, valCam)" by (cases cv)
    let ?m = "main_model c D (length cams)"
    obtain e' t' where l': "trainLoop (withLoss x P) c ?m (main_steps c)
        (initialState (withLoss x P) D cams) = (e', t')" by fastforce
    obtain e t where l: "trainLoop P c ?m (main_steps c) (initialState P D cams) = (e, t)"
      by fastforce
    have "sameButLosses x (initialState (withLoss x P) D cams) (initialState P D cams)"
      by (rule initialState_withLoss)
    from trainLoop_withLoss [OF this, of P c ?m "main_steps c"] l l'
    have ee: "e' = e" and tt: "sameButLosses x t' t" by simp_all
    from tt have ev: "ts_events t' = map (setLoss x) (ts_events t)"
      and ten: "ts_tensors t' = ts_tensors t" by (simp_all add: sameButLosses_def)
    show ?thesis
    proof (cases e)
      case (Some f)
      with load Inr cv l l' ee ev show ?thesis
        by (simp add: main_try_def withLoss_fields Let_def)
    next
      case None
      show ?thesis
      proof (cases "savePlySplat P (ts_tensors t) (opt_output c)")
        case (Some f)
        with None load Inr cv l l' ee ev ten show ?thesis
          by (simp add: main_try_def withLoss_fields Let_def)
      next
        case sv: None
        show ?thesis
        proof (cases valCam)
          case None
          with sv \<open>e = None\<close> load Inr cv l l' ee ev ten show ?thesis
            by (simp add: main_try_def withLoss_fields Let_def)
        next
          case (Some vi)
          from rel_sum_eq_cases [OF validation_withLoss [of x P c ?m "cameras D ! vi" "ts_tensors t"]]
          show ?thesis
          proof (elim disjE exE conjE)
            fix f
            assume "validation (withLoss x P) c ?m (cameras D ! vi) (ts_tensors t) = Inl f"
              "validation P c ?m (cameras D ! vi) (ts_tensors t) = Inl f"
            with Some sv \<open>e = None\<close> load \<open>getCameras _ _ _ _ = Inr cv\<close> cv l l' ee ev ten
            show ?thesis
              by (simp add: main_try_def withLoss_fields Let_def)
          next
            fix u v
            assume "validation (withLoss x P) c ?m (cameras D ! vi) (ts_tensors t) = Inr u"
              "validation P c ?m (cameras D ! vi) (ts_tensors t) = Inr v" "u = setLoss x v"
            with Some sv \<open>e = None\<close> load \<open>getCameras _ _ _ _ = Inr cv\<close> cv l l' ee ev ten
            show ?thesis
              by (simp add: main_try_def withLoss_fields Let_def)
          qed
        qed
      qed
    qed
  qed
qed

lemma main_withLoss:
  "snd (main L (withLoss x P) c) = snd (main L P c)
   \<and> fst (main L (withLoss x P) c) = map (setLoss x) (fst (main L P c))"
  using main_try_withLoss [of L x P c] by (simp add: main_def split: option.splits)

text \<open>
  C2, as amended. \<open>main\<close> does not look at the loss values it reads: with every loss
  that a run reads replaced by any one \<open>float\<close>, be it NaN or an infinity, the run ends in
  the same way (it returns, exits with the same message, terminates or is undefined
  alike) and records the same steps for the same cameras, each now with that value as its
  loss.
\<close>

theorem loss_value_not_inspected:
  "snd (main L (withLoss x P) c) = snd (main L P c)
   \<and> fst (main L (withLoss x P) c) = map (setLoss x) (fst (main L P c))
   \<and> map lossOf (fst (main L (withLoss x P) c)) = replicate (length (fst (main L P c))) x"
proof -
  have "lossOf (setLoss x ev) = x" for ev by (cases ev) simp_all
  then have "map lossOf (map (setLoss x) evs) = replicate (length evs) x" for evs
    by (induction evs) simp_all
  with main_withLoss [of L x P c] show ?thesis by simp
qed

theorem loss_value_not_inspected_witness:
  "snd (main demo_loaders (withLoss PosInf demo_pipeline) demo_cmd) = Returned
   \<and> fst (main demo_loaders (withLoss PosInf demo_pipeline) demo_cmd) =
       [TrainStep 1 0 PosInf, TrainStep 2 0 PosInf, Validate ''data/images/b.png'' PosInf]
   \<and> map lossOf (fst (main demo_loaders (withLoss PosInf demo_pipeline) demo_cmd)) =
       [PosInf, PosInf, PosInf]"
  using loss_value_not_inspected [of demo_loaders PosInf demo_pipeline demo_cmd] demo_run
  by (simp add: numeral_3_eq_3)

text \<open>
  C2 as stated fails: in this run the loss of the first step is NaN, and the run goes on
  to the second step and to the validation, and returns.
\<close>

theorem nan_loss_counterexample:
  "main demo_loaders demo_pipeline demo_cmd =
     ([TrainStep 1 0 NaN, TrainStep 2 0 (Finite (1 / 4)),
       Validate ''data/images/b.png'' (Finite (1 / 4))], Returned)
   \<and> \<not> isfinite NaN"
  using demo_run by simp

subsection \<open>Training with \<open>--fixed\<close>\<close>

lemma afterTrain_closed_gate:
  "\<not> refineGate m (int step) \<Longrightarrow> afterTrain P m step np = Inr np' \<Longrightarrow> fst np' = fst np"
  by (auto simp: afterTrain_def Let_def)

lemma trainStep_N:
  assumes "\<not> refineGate m (int step)" and "trainStep P c m step s = Inr s'"
  shows "ts_N s' = ts_N s"
  using assms
  by (auto simp: trainStep_def updatePhase_def split: sum.splits prod.splits if_splits
      dest!: afterTrain_closed_gate)

lemma trainLoop_N:
  assumes "\<forall>step \<in> set steps. \<not> refineGate m (int step)"
  shows "ts_N (snd (trainLoop P c m steps s)) = ts_N s"
  using assms
proof (induction steps arbitrary: s)
  case Nil
  then show ?case by simp
next
  case (Cons step steps)
  show ?case
  proof (cases "trainStep P c m step s")
    case (Inl e)
    then show ?thesis by simp
  next
    case (Inr s')
    with Cons.prems have "ts_N s' = ts_N s" using trainStep_N [of m step P c s s'] by simp
    with Inr Cons show ?thesis by simp
  qed
qed


lemma to_size_t_id: "0 \<le> x \<Longrightarrow> x < 2 ^ 64 \<Longrightarrow> to_size_t x = nat x"
  by (simp add: to_size_t_def)

lemma main_model_fields:
  "refineEvery (main_model c D k) = main_refineEvery c"
  "stopSplitAt (main_model c D k) = main_stopSplitAt c"
  "warmupLength (main_model c D k) = opt_warmup_length c"
  "maxSteps (main_model c D k) = opt_num_iters c"
  by (simp_all add: main_model_def Model_ctor_def Let_def)

text \<open>
  C10. With \<open>--fixed\<close> and a number of iterations \<open>numIters \<ge> 0\<close> whose double fits an
  \<open>int\<close>, the model is built with \<open>refineEvery = 2 * numIters\<close> and \<open>stopSplitAt = 1\<close>;
  the loop runs the steps 1 to \<open>numIters\<close>, none of which is a multiple of \<open>refineEvery\<close>,
  so the density controller's condition holds at none of them; and after any number of
  iterations of the loop the number of primitives is what it was at the start.
\<close>

theorem fixed_never_refines:
  assumes fixed: "opt_fixed c"
    and lo: "0 \<le> opt_num_iters c" and hi: "2 * opt_num_iters c < 2 ^ 31"
  shows "refineEvery (main_model c D k) = 2 * opt_num_iters c
       \<and> stopSplitAt (main_model c D k) = 1
       \<and> set (main_steps c) = {step. 1 \<le> int step \<and> int step \<le> opt_num_iters c}
       \<and> (\<forall>step \<in> set (main_steps c).
             int step mod refineEvery (main_model c D k) \<noteq> 0
             \<and> \<not> refineGate (main_model c D k) (int step))
       \<and> (\<forall>j. ts_N (snd (trainLoop P c (main_model c D k) (take j (main_steps c)) s)) = ts_N s)"
proof -
  let ?m = "main_model c D k"
  have re: "refineEvery ?m = 2 * opt_num_iters c" and ss: "stopSplitAt ?m = 1"
    using fixed by (simp_all add: main_model_fields main_refineEvery_def main_stopSplitAt_def)
  have sz: "to_size_t (opt_num_iters c) = nat (opt_num_iters c)"
    using lo hi by (intro to_size_t_id) simp_all
  have steps: "set (main_steps c) = {step. 1 \<le> int step \<and> int step \<le> opt_num_iters c}"
    using lo by (auto simp: main_steps_def sz)
  have closed: "int step mod refineEvery ?m \<noteq> 0 \<and> \<not> refineGate ?m (int step)"
    if "step \<in> set (main_steps c)" for step
  proof -
    from that steps have b: "1 \<le> int step" "int step \<le> opt_num_iters c" by simp_all
    then have "int step mod (2 * opt_num_iters c) = int step"
      by (intro mod_pos_pos_trivial) simp_all
    with b show ?thesis by (simp add: refineGate_def re)
  qed
  have cl: "\<forall>step \<in> set (main_steps c).
              int step mod refineEvery ?m \<noteq> 0 \<and> \<not> refineGate ?m (int step)"
    by (intro ballI) (rule closed)
  have "ts_N (snd (trainLoop P c ?m (take j (main_steps c)) s)) = ts_N s" for j
  proof (rule trainLoop_N)
    show "\<forall>step \<in> set (take j (main_steps c)). \<not> refineGate ?m (int step)"
      using closed by (meson in_set_takeD)
  qed
  then have N: "\<forall>j. ts_N (snd (trainLoop P c ?m (take j (main_steps c)) s)) = ts_N s" ..
  show ?thesis by (rule conjI [OF re conjI [OF ss conjI [OF steps conjI [OF cl N]]]])
qed

text \<open>
  Without \<open>--fixed\<close>, with no warm-up and \<open>refineEvery = 1\<close>, the density controller of
  the concrete pipeline runs at the first step and doubles the five primitives.
\<close>

lemma eager_step:
  "ts_N (snd (trainLoop demo_pipeline eager_cmd (main_model eager_cmd demo_inputData 2) [1]
       (initialState demo_pipeline demo_inputData [demo_camA, demo_camB]))) = 10"
proof -
  let ?m = "main_model eager_cmd demo_inputData 2"
  have c: "opt_val_render eager_cmd = []" "opt_save_every eager_cmd = - 1"
    by (simp_all add: eager_cmd_def demo_cmd_def)
  have f: "getDownscaleFactor ?m 1 = 4" "refineGate ?m 1"
    by (simp_all add: main_model_def Model_ctor_def Let_def eager_cmd_def demo_cmd_def
        getDownscaleFactor_def refineGate_def main_refineEvery_def main_stopSplitAt_def)
  have "camsIter0 demo_shuffle 42 2 = \<lparr>it_v = [0, 1], it_i = 0, it_engine = 43\<rparr>"
    by code_simp
  then have it: "camsIter0 demo_shuffle 42 (Suc (Suc 0)) = \<lparr>it_v = [0, 1], it_i = 0, it_engine = 43\<rparr>"
    by (simp add: numeral_2_eq_2)
  have n: "points_xyz_size0 demo_inputData = 5" by (simp add: demo_inputData_def)
  have "\<exists>s. trainStep demo_pipeline eager_cmd ?m 1
          (initialState demo_pipeline demo_inputData [demo_camA, demo_camB]) = Inr s \<and> ts_N s = 10"
    by (simp add: trainStep_def renderPhase_def updatePhase_def initialState_def it f c
        iter_next_def afterTrain_def demo_pipeline_def getImage_def demo_camA_def demo_resize_def
        n Let_def del: One_nat_def)
  then show ?thesis by (auto simp del: One_nat_def)
qed

lemma fixed_cmd_fields:
  "opt_fixed fixed_cmd" "opt_num_iters fixed_cmd = 2" "opt_warmup_length fixed_cmd = 0"
  by (simp_all add: fixed_cmd_def demo_cmd_def)

theorem fixed_never_refines_witness:
  "refineEvery (main_model fixed_cmd demo_inputData 2) = 4
   \<and> stopSplitAt (main_model fixed_cmd demo_inputData 2) = 1
   \<and> warmupLength (main_model fixed_cmd demo_inputData 2) = 0
   \<and> main_steps fixed_cmd = [1, 2]
   \<and> \<not> refineGate (main_model fixed_cmd demo_inputData 2) 1
   \<and> \<not> refineGate (main_model fixed_cmd demo_inputData 2) 2
   \<and> ts_N (snd (trainLoop demo_pipeline fixed_cmd (main_model fixed_cmd demo_inputData 2)
              (main_steps fixed_cmd)
              (initialState demo_pipeline demo_inputData [demo_camA, demo_camB]))) = 5
   \<and> ts_N (snd (trainLoop demo_pipeline eager_cmd (main_model eager_cmd demo_inputData 2) [1]
              (initialState demo_pipeline demo_inputData [demo_camA, demo_camB]))) = 10"
proof -
  let ?m = "main_model fixed_cmd demo_inputData 2"
  let ?s = "initialState demo_pipeline demo_inputData [demo_camA, demo_camB]"
  have steps: "main_steps fixed_cmd = [1, 2]"
    by (simp add: main_steps_def fixed_cmd_fields to_size_t_def upt_rec)
  have n0: "ts_N ?s = 5" by (simp add: initialState_def demo_inputData_def)
  from fixed_never_refines [of fixed_cmd demo_inputData 2 demo_pipeline ?s]
  have t: "refineEvery ?m = 4" "stopSplitAt ?m = 1"
    "\<forall>step \<in> set (main_steps fixed_cmd). int step mod refineEvery ?m \<noteq> 0 \<and> \<not> refineGate ?m (int step)"
    "\<forall>j. ts_N (snd (trainLoop demo_pipeline fixed_cmd ?m (take j (main_steps fixed_cmd)) ?s)) = ts_N ?s"
    by (simp_all add: fixed_cmd_fields)
  from t(3) have g: "\<not> refineGate ?m 1" "\<not> refineGate ?m 2"
    unfolding steps by (simp_all del: One_nat_def)
  from t(4) have "ts_N (snd (trainLoop demo_pipeline fixed_cmd ?m (take 2 (main_steps fixed_cmd)) ?s)) = ts_N ?s" ..
  then have N: "ts_N (snd (trainLoop demo_pipeline fixed_cmd ?m (main_steps fixed_cmd) ?s)) = 5"
    by (simp add: steps n0)
  have w: "warmupLength ?m = 0" by (simp add: main_model_fields fixed_cmd_fields)
  from t(1,2) w steps g N eager_step show ?thesis by (intro conjI)
qed


end
